theory Spec2Isabelle
  imports Main "HOL-Library.AList"
begin

section \<open>The host object model\<close>

text \<open>
  The library \<^verbatim>\<open>src/index.js\<close> stores a trait's implementation on the target
  itself, under a symbol key, and finds it again with an ordinary property read. What
  it does is therefore decided by the property operations of the language: reading
  through the prototype chain, \<^verbatim>\<open>Object.defineProperty\<close>, assignment, \<^verbatim>\<open>for ... in\<close>,
  conversion to string, and calling. This section models those operations for ordinary
  objects.

  Scope of the model:
  \<^item> objects are ordinary objects. A property is a data property, or the accessor
    property that every object inherits from \<^verbatim>\<open>Object.prototype\<close>: the one whose
    getter and setter are the built-in pair of \<^verbatim>\<open>__proto__\<close>. Other accessor
    properties (those with functions of the caller, those of \<^verbatim>\<open>Function.prototype\<close>
    whose setter throws), exotic objects and proxies are not modelled;
  \<^item> numbers are the integers that print as plain decimal digits (magnitude below
    \<open>10^21\<close>; the exactly representable ones are those up to \<open>2^53\<close>) and \<^verbatim>\<open>NaN\<close>;
  \<^item> the module's functions run in strict mode, so \<^verbatim>\<open>this\<close> is the value the
    caller supplied (a symbol stays a symbol) and a failed assignment throws;
  \<^item> inside the module a call \<^verbatim>\<open>x.*f(...)\<close> of one of the module's own traits
    reaches the function the module installed for \<^verbatim>\<open>f\<close>, and \<^verbatim>\<open>assert\<close>,
    \<^verbatim>\<open>Object.defineProperty\<close>, \<^verbatim>\<open>Array.prototype.forEach\<close> and the methods of \<^verbatim>\<open>Map\<close>
    are the standard ones. The call \<^verbatim>\<open>this.hasOwnProperty(name)\<close> is an ordinary
    property read followed by a call, and is modelled as such.
\<close>

type_synonym addr = nat
type_synonym sym = nat

datatype val =
    VUndefined
  | VNull
  | VBool bool
  | VNum int
  | VNaN
  | VStr string
  | VSym sym
  | VRef addr

datatype key = KStr string | KSym sym

text \<open>
  A property with its attributes. For the accessor property (\<open>ProtoAccessor\<close>: the
  getter returns the prototype of the receiver, the setter replaces it) the value and
  the writable attribute are not used.
\<close>

datatype kind = DataProperty | ProtoAccessor

record property =
  p_value :: val
  p_writable :: bool
  p_enumerable :: bool
  p_configurable :: bool
  p_kind :: kind

text \<open>
  What a function object runs when it is called: a function of the caller's (opaque,
  numbered), the built-in \<^verbatim>\<open>Object.prototype.hasOwnProperty\<close>, or one of the two
  closures this module creates, with the variables it captured.
\<close>

datatype code =
    User nat
  | HasOwnProperty
  | FreeFunction sym string
  | MethodWrapper val string

record obj =
  o_props :: "(key \<times> property) list"
  o_proto :: "addr option"
  o_extensible :: bool
  o_code :: "code option"

datatype error =
    TypeError
  | AssertionError string
  | Error string
  | RangeError
  | Thrown val

text \<open>
  The state: the heap (an object's address is its index; allocation appends), the
  descriptions of the symbols created so far (a symbol is its index), and the registry
  \<^verbatim>\<open>namespace.defaultImpls\<close>.
\<close>

record state =
  heap :: "obj list"
  symbols :: "string option list"
  defaultImpls :: "sym \<rightharpoonup> val"

type_synonym 'a js = "state \<Rightarrow> (error + 'a) \<times> state"

definition ret :: "'a \<Rightarrow> 'a js" where
  "ret v = (\<lambda>st. (Inr v, st))"

definition throw :: "error \<Rightarrow> 'a js" where
  "throw e = (\<lambda>st. (Inl e, st))"

definition bind :: "'a js \<Rightarrow> ('a \<Rightarrow> 'b js) \<Rightarrow> 'b js" where
  "bind m f = (\<lambda>st. case m st of (Inl e, st') \<Rightarrow> (Inl e, st') | (Inr v, st') \<Rightarrow> f v st')"

text \<open>The intrinsic prototype objects live at fixed addresses.\<close>

definition Object_prototype :: addr where "Object_prototype = 0"
definition Function_prototype :: addr where "Function_prototype = 1"
definition Number_prototype :: addr where "Number_prototype = 2"
definition String_prototype :: addr where "String_prototype = 3"
definition Boolean_prototype :: addr where "Boolean_prototype = 4"
definition Symbol_prototype :: addr where "Symbol_prototype = 5"

text \<open>The well-known symbol \<^verbatim>\<open>Symbol.toPrimitive\<close>.\<close>

definition Symbol_toPrimitive :: sym where "Symbol_toPrimitive = 0"

definition obj_at :: "obj list \<Rightarrow> addr \<Rightarrow> obj option" where
  "obj_at h a = (if a < length h then Some (h ! a) else None)"

definition truthy :: "val \<Rightarrow> bool" where
  "truthy v = (case v of
      VUndefined \<Rightarrow> False
    | VNull \<Rightarrow> False
    | VBool b \<Rightarrow> b
    | VNum i \<Rightarrow> i \<noteq> 0
    | VNaN \<Rightarrow> False
    | VStr s \<Rightarrow> s \<noteq> []
    | VSym _ \<Rightarrow> True
    | VRef _ \<Rightarrow> True)"

definition is_symbol :: "val \<Rightarrow> bool" where
  "is_symbol v = (case v of VSym _ \<Rightarrow> True | _ \<Rightarrow> False)"

definition is_object :: "val \<Rightarrow> bool" where
  "is_object v = (case v of VRef _ \<Rightarrow> True | _ \<Rightarrow> False)"

definition nullish :: "val \<Rightarrow> bool" where
  "nullish v = (v = VUndefined \<or> v = VNull)"

definition function_code :: "state \<Rightarrow> val \<Rightarrow> code option" where
  "function_code st v = (case v of
      VRef a \<Rightarrow> (case obj_at (heap st) a of None \<Rightarrow> None | Some ob \<Rightarrow> o_code ob)
    | _ \<Rightarrow> None)"

definition is_callable :: "state \<Rightarrow> val \<Rightarrow> bool" where
  "is_callable st v = (function_code st v \<noteq> None)"

subsection \<open>Numbers and strings\<close>

definition digit_char :: "nat \<Rightarrow> char" where
  "digit_char n = ''0123456789'' ! (n mod 10)"

function decimal :: "nat \<Rightarrow> string" where
  "decimal n = (if n < 10 then [digit_char n] else decimal (n div 10) @ [digit_char (n mod 10)])"
  by pat_completeness auto
termination
  by (relation "measure id") auto

definition number_to_string :: "int \<Rightarrow> string" where
  "number_to_string i = (if i < 0 then ''-'' @ decimal (nat (- i)) else decimal (nat i))"

definition is_digit :: "char \<Rightarrow> bool" where
  "is_digit c = (c \<in> set ''0123456789'')"

definition digit_val :: "char \<Rightarrow> int" where
  "digit_val c = of_char c - 48"

definition parse_decimal :: "string \<Rightarrow> int" where
  "parse_decimal s = foldl (\<lambda>a c. 10 * a + digit_val c) 0 s"

text \<open>
  An array index is the canonical decimal name of an integer below \<open>2^32 - 1\<close>; such
  keys come first, in ascending order, when the keys of an object are listed.
\<close>

definition array_index :: "string \<Rightarrow> int option" where
  "array_index s =
     (if s \<noteq> [] \<and> list_all is_digit s \<and> (length s = 1 \<or> hd s \<noteq> CHR ''0'')
         \<and> parse_decimal s < 4294967295
      then Some (parse_decimal s) else None)"

text \<open>
  \<^verbatim>\<open>s.slice(start, end)\<close> of a string, for integer arguments: a negative position
  counts from the end.
\<close>

definition slice :: "string \<Rightarrow> int \<Rightarrow> int \<Rightarrow> string" where
  "slice s start fin =
     (let len = int (length s);
          from = (if start < 0 then max (len + start) 0 else min start len);
          to = (if fin < 0 then max (len + fin) 0 else min fin len)
      in take (nat (to - from)) (drop (nat from) s))"

text \<open>
  \<^verbatim>\<open>String(sym)\<close> of a symbol is \<^verbatim>\<open>Symbol(description)\<close>, with an empty description
  when the symbol has none.
\<close>

definition symbol_description :: "state \<Rightarrow> sym \<Rightarrow> string option" where
  "symbol_description st s = (if s < length (symbols st) then symbols st ! s else None)"

definition symbol_descriptive_string :: "state \<Rightarrow> sym \<Rightarrow> string" where
  "symbol_descriptive_string st s =
     ''Symbol('' @ (case symbol_description st s of None \<Rightarrow> [] | Some d \<Rightarrow> d) @ '')''"

text \<open>\<^verbatim>\<open>Symbol(name)\<close>: a fresh symbol described by \<open>name\<close>.\<close>

definition new_symbol :: "string \<Rightarrow> state \<Rightarrow> sym \<times> state" where
  "new_symbol name st = (length (symbols st), st\<lparr>symbols := symbols st @ [Some name]\<rparr>)"

subsection \<open>Reading properties\<close>

text \<open>
  The own properties of a value. A string has its length and one property per
  character; the other primitives have none.
\<close>

definition string_own_prop :: "string \<Rightarrow> key \<Rightarrow> property option" where
  "string_own_prop s k = (case k of
      KSym _ \<Rightarrow> None
    | KStr n \<Rightarrow>
        (if n = ''length''
         then Some \<lparr>p_value = VNum (int (length s)), p_writable = False,
                    p_enumerable = False, p_configurable = False, p_kind = DataProperty\<rparr>
         else (case array_index n of
                 None \<Rightarrow> None
               | Some i \<Rightarrow>
                   (if i < int (length s)
                    then Some \<lparr>p_value = VStr [s ! nat i], p_writable = False,
                               p_enumerable = True, p_configurable = False,
                               p_kind = DataProperty\<rparr>
                    else None))))"

definition own_prop :: "state \<Rightarrow> val \<Rightarrow> key \<Rightarrow> property option" where
  "own_prop st v k = (case v of
      VRef a \<Rightarrow> (case obj_at (heap st) a of None \<Rightarrow> None | Some ob \<Rightarrow> map_of (o_props ob) k)
    | VStr s \<Rightarrow> string_own_prop s k
    | _ \<Rightarrow> None)"

text \<open>The object where the lookup continues when the value has no own property.\<close>

definition proto_of :: "state \<Rightarrow> val \<Rightarrow> addr option" where
  "proto_of st v = (case v of
      VRef a \<Rightarrow> (case obj_at (heap st) a of None \<Rightarrow> None | Some ob \<Rightarrow> o_proto ob)
    | VStr _ \<Rightarrow> Some String_prototype
    | VNum _ \<Rightarrow> Some Number_prototype
    | VNaN \<Rightarrow> Some Number_prototype
    | VBool _ \<Rightarrow> Some Boolean_prototype
    | VSym _ \<Rightarrow> Some Symbol_prototype
    | _ \<Rightarrow> None)"

text \<open>
  The walk up the prototype chain. A chain of a heap of \<open>n\<close> objects has at most \<open>n\<close>
  links (the language keeps chains acyclic), so \<open>n\<close> steps are enough.
\<close>

fun chain_find :: "nat \<Rightarrow> obj list \<Rightarrow> addr \<Rightarrow> key \<Rightarrow> property option" where
  "chain_find 0 h a k = None"
| "chain_find (Suc n) h a k =
     (case obj_at h a of
        None \<Rightarrow> None
      | Some ob \<Rightarrow>
          (case map_of (o_props ob) k of
             Some p \<Rightarrow> Some p
           | None \<Rightarrow> (case o_proto ob of None \<Rightarrow> None | Some a' \<Rightarrow> chain_find n h a' k)))"

definition find_prop :: "state \<Rightarrow> val \<Rightarrow> key \<Rightarrow> property option" where
  "find_prop st v k =
     (case own_prop st v k of
        Some p \<Rightarrow> Some p
      | None \<Rightarrow>
          (case proto_of st v of
             None \<Rightarrow> None
           | Some a \<Rightarrow> chain_find (length (heap st)) (heap st) a k))"

text \<open>The prototype of a value, as the getter of \<^verbatim>\<open>__proto__\<close> returns it.\<close>

definition proto_value :: "state \<Rightarrow> val \<Rightarrow> val" where
  "proto_value st v = (case proto_of st v of None \<Rightarrow> VNull | Some a \<Rightarrow> VRef a)"

text \<open>
  \<^verbatim>\<open>v[k]\<close> for a value that is neither \<^verbatim>\<open>undefined\<close> nor \<^verbatim>\<open>null\<close>: the value of the
  data property found, or what the getter returns for the value read.
\<close>

definition get_value :: "state \<Rightarrow> val \<Rightarrow> key \<Rightarrow> val" where
  "get_value st v k =
     (case find_prop st v k of
        None \<Rightarrow> VUndefined
      | Some p \<Rightarrow>
          (case p_kind p of DataProperty \<Rightarrow> p_value p | ProtoAccessor \<Rightarrow> proto_value st v))"

text \<open>\<^verbatim>\<open>v[k]\<close>: a \<^verbatim>\<open>TypeError\<close> on \<^verbatim>\<open>undefined\<close> and \<^verbatim>\<open>null\<close>.\<close>

definition get :: "val \<Rightarrow> key \<Rightarrow> val js" where
  "get v k = (\<lambda>st. if nullish v then (Inl TypeError, st) else (Inr (get_value st v k), st))"

subsection \<open>Defining and assigning properties\<close>

text \<open>A property descriptor: each field may be absent.\<close>

record desc =
  d_value :: "val option"
  d_writable :: "bool option"
  d_enumerable :: "bool option"
  d_configurable :: "bool option"

definition or_else :: "'a option \<Rightarrow> 'a \<Rightarrow> 'a" where
  "or_else x d = (case x of None \<Rightarrow> d | Some v \<Rightarrow> v)"

text \<open>
  The descriptors of this model have no getter and no setter; one that gives a value
  or the writable attribute describes a data property.
\<close>

definition is_data_desc :: "desc \<Rightarrow> bool" where
  "is_data_desc d = (d_value d \<noteq> None \<or> d_writable d \<noteq> None)"

text \<open>
  Whether a descriptor may be applied to an existing property: a property that is not
  configurable keeps its attributes and its kind, and a data property keeps its value
  too when it is not writable.
\<close>

definition desc_allowed :: "property \<Rightarrow> desc \<Rightarrow> bool" where
  "desc_allowed cur d =
     (if p_configurable cur then True
      else if d_configurable d = Some True then False
      else if d_enumerable d \<noteq> None \<and> d_enumerable d \<noteq> Some (p_enumerable cur) then False
      else (case p_kind cur of
              ProtoAccessor \<Rightarrow> \<not> is_data_desc d
            | DataProperty \<Rightarrow>
                (if p_writable cur then True
                 else if d_writable d = Some True then False
                 else if d_value d \<noteq> None \<and> d_value d \<noteq> Some (p_value cur) then False
                 else True)))"

text \<open>
  The property after the descriptor is applied. An accessor property given a value or
  the writable attribute becomes a data property, with the defaults for what the
  descriptor leaves out.
\<close>

definition apply_desc :: "property \<Rightarrow> desc \<Rightarrow> property" where
  "apply_desc cur d =
     (case p_kind cur of
        DataProperty \<Rightarrow>
          \<lparr>p_value = or_else (d_value d) (p_value cur),
           p_writable = or_else (d_writable d) (p_writable cur),
           p_enumerable = or_else (d_enumerable d) (p_enumerable cur),
           p_configurable = or_else (d_configurable d) (p_configurable cur),
           p_kind = DataProperty\<rparr>
      | ProtoAccessor \<Rightarrow>
          (if is_data_desc d
           then \<lparr>p_value = or_else (d_value d) VUndefined,
                 p_writable = or_else (d_writable d) False,
                 p_enumerable = or_else (d_enumerable d) (p_enumerable cur),
                 p_configurable = or_else (d_configurable d) (p_configurable cur),
                 p_kind = DataProperty\<rparr>
           else \<lparr>p_value = p_value cur,
                 p_writable = p_writable cur,
                 p_enumerable = or_else (d_enumerable d) (p_enumerable cur),
                 p_configurable = or_else (d_configurable d) (p_configurable cur),
                 p_kind = ProtoAccessor\<rparr>))"

definition new_prop :: "desc \<Rightarrow> property" where
  "new_prop d =
     \<lparr>p_value = or_else (d_value d) VUndefined,
      p_writable = or_else (d_writable d) False,
      p_enumerable = or_else (d_enumerable d) False,
      p_configurable = or_else (d_configurable d) False,
      p_kind = DataProperty\<rparr>"

text \<open>
  The object's own definition of a property: the new list of properties, or \<open>None\<close>
  when the definition is refused. A new key goes to the end of the list; an existing
  one keeps its place.
\<close>

definition define_own :: "obj \<Rightarrow> key \<Rightarrow> desc \<Rightarrow> obj option" where
  "define_own ob k d =
     (case map_of (o_props ob) k of
        None \<Rightarrow>
          (if o_extensible ob
           then Some (ob\<lparr>o_props := AList.update k (new_prop d) (o_props ob)\<rparr>)
           else None)
      | Some cur \<Rightarrow>
          (if desc_allowed cur d
           then Some (ob\<lparr>o_props := AList.update k (apply_desc cur d) (o_props ob)\<rparr>)
           else None))"

text \<open>
  \<^verbatim>\<open>Object.defineProperty(target, key, descriptor)\<close>: a \<^verbatim>\<open>TypeError\<close> when the target
  is not an object or the definition is refused.
\<close>

definition defineProperty :: "val \<Rightarrow> key \<Rightarrow> desc \<Rightarrow> val js" where
  "defineProperty target k d = (\<lambda>st.
     case target of
       VRef a \<Rightarrow>
         (case obj_at (heap st) a of
            None \<Rightarrow> (Inl TypeError, st)
          | Some ob \<Rightarrow>
              (case define_own ob k d of
                 None \<Rightarrow> (Inl TypeError, st)
               | Some ob' \<Rightarrow> (Inr target, st\<lparr>heap := (heap st)[a := ob']\<rparr>)))
     | _ \<Rightarrow> (Inl TypeError, st))"

text \<open>
  The assignment to a data property of the receiver itself: the own property takes
  the value, or a new own property is created when the receiver has none. Refused
  (\<open>None\<close>) when the receiver is not an object, when the own property does not allow
  it, or when there is none and the receiver is not extensible.
\<close>

definition assign_own :: "val \<Rightarrow> key \<Rightarrow> val \<Rightarrow> val js" where
  "assign_own receiver k v = (\<lambda>st.
     case receiver of
       VRef a \<Rightarrow>
         (case obj_at (heap st) a of
            None \<Rightarrow> (Inl TypeError, st)
          | Some ob \<Rightarrow>
              (case define_own ob k
                 (case map_of (o_props ob) k of
                    Some cur \<Rightarrow>
                      \<lparr>d_value = Some v, d_writable = None,
                       d_enumerable = None, d_configurable = None\<rparr>
                  | None \<Rightarrow>
                      \<lparr>d_value = Some v, d_writable = Some True,
                       d_enumerable = Some True, d_configurable = Some True\<rparr>) of
                 None \<Rightarrow> (Inl TypeError, st)
               | Some ob' \<Rightarrow> (Inr v, st\<lparr>heap := (heap st)[a := ob']\<rparr>)))
     | _ \<Rightarrow> (Inl TypeError, st))"

text \<open>
  Whether the prototype chain that starts at \<open>p\<close> passes through the object \<open>a\<close>.
\<close>

fun proto_chain_reaches :: "nat \<Rightarrow> obj list \<Rightarrow> addr option \<Rightarrow> addr \<Rightarrow> bool" where
  "proto_chain_reaches 0 h p a = False"
| "proto_chain_reaches (Suc n) h None a = False"
| "proto_chain_reaches (Suc n) h (Some b) a =
     (if b = a then True
      else (case obj_at h b of
              None \<Rightarrow> False
            | Some ob \<Rightarrow> proto_chain_reaches n h (o_proto ob) a))"

text \<open>
  The setter of \<^verbatim>\<open>__proto__\<close>, called on the receiver with the value assigned. A
  value that is neither an object nor \<^verbatim>\<open>null\<close> is ignored: nothing is stored and
  nothing is thrown. So is every value when the receiver is not an object. Otherwise
  the prototype of the receiver is replaced, which is refused (a \<^verbatim>\<open>TypeError\<close>) when
  the receiver is not extensible or the chain would become cyclic.
\<close>

definition proto_setter :: "val \<Rightarrow> val \<Rightarrow> val js" where
  "proto_setter receiver v = (\<lambda>st.
     if \<not> (is_object v \<or> v = VNull) then (Inr v, st)
     else
       (case receiver of
          VRef a \<Rightarrow>
            (case obj_at (heap st) a of
               None \<Rightarrow> (Inr v, st)
             | Some ob \<Rightarrow>
                 (let p = (case v of VRef b \<Rightarrow> Some b | _ \<Rightarrow> None)
                  in if o_proto ob = p then (Inr v, st)
                     else if \<not> o_extensible ob then (Inl TypeError, st)
                     else if proto_chain_reaches (Suc (length (heap st))) (heap st) p a
                     then (Inl TypeError, st)
                     else (Inr v, st\<lparr>heap := (heap st)[a := ob\<lparr>o_proto := p\<rparr>]\<rparr>)))
        | _ \<Rightarrow> (Inr v, st)))"

text \<open>
  The assignment \<^verbatim>\<open>receiver[k] = v\<close> in strict code. The property is looked up on the
  receiver and its prototype chain. When it is the accessor, its setter is called.
  When it is a data property that is not writable, the assignment is refused (a
  \<^verbatim>\<open>TypeError\<close>). Otherwise the value goes to an own property of the receiver.
\<close>

definition set_prop :: "val \<Rightarrow> key \<Rightarrow> val \<Rightarrow> val js" where
  "set_prop receiver k v = (\<lambda>st.
     if nullish receiver then (Inl TypeError, st)
     else
       (case find_prop st receiver k of
          None \<Rightarrow> assign_own receiver k v st
        | Some p \<Rightarrow>
            (case p_kind p of
               ProtoAccessor \<Rightarrow> proto_setter receiver v st
             | DataProperty \<Rightarrow>
                 (if p_writable p then assign_own receiver k v st
                  else (Inl TypeError, st)))))"

subsection \<open>Listing properties\<close>

text \<open>
  The own string keys of an object in the order the language lists them: array indices
  ascending, then the other names in the order they were added.
\<close>

definition string_keys :: "(key \<times> property) list \<Rightarrow> string list" where
  "string_keys ps =
     (let names = List.map_filter (\<lambda>(k, p). case k of KStr s \<Rightarrow> Some s | KSym _ \<Rightarrow> None) ps
      in map (decimal \<circ> nat) (sort (List.map_filter array_index names))
         @ filter (\<lambda>s. array_index s = None) names)"

definition own_keys :: "state \<Rightarrow> val \<Rightarrow> string list" where
  "own_keys st v = (case v of
      VRef a \<Rightarrow> (case obj_at (heap st) a of None \<Rightarrow> [] | Some ob \<Rightarrow> string_keys (o_props ob))
    | VStr s \<Rightarrow> map decimal [0..<length s] @ [''length'']
    | _ \<Rightarrow> [])"

definition own_enumerable :: "state \<Rightarrow> val \<Rightarrow> string \<Rightarrow> bool" where
  "own_enumerable st v k =
     (case own_prop st v (KStr k) of None \<Rightarrow> False | Some p \<Rightarrow> p_enumerable p)"

text \<open>
  \<^verbatim>\<open>for (let key in v)\<close>: the enumerable string keys of the value and then of the
  objects on its prototype chain; a name already met on the way, enumerable or not,
  is not listed again.
\<close>

fun for_in_from :: "nat \<Rightarrow> state \<Rightarrow> val \<Rightarrow> string list \<Rightarrow> string list" where
  "for_in_from 0 st v seen = []"
| "for_in_from (Suc n) st v seen =
     filter (\<lambda>k. k \<notin> set seen \<and> own_enumerable st v k) (own_keys st v)
     @ (case proto_of st v of
          None \<Rightarrow> []
        | Some a \<Rightarrow> for_in_from n st (VRef a) (seen @ own_keys st v))"

definition for_in_keys :: "state \<Rightarrow> val \<Rightarrow> string list" where
  "for_in_keys st v = (if nullish v then [] else for_in_from (Suc (length (heap st))) st v [])"

text \<open>A loop over a list that stops at the first error.\<close>

fun for_each :: "'a list \<Rightarrow> ('a \<Rightarrow> unit js) \<Rightarrow> unit js" where
  "for_each [] f = ret ()"
| "for_each (x # xs) f = bind (f x) (\<lambda>_. for_each xs f)"

subsection \<open>Function objects\<close>

text \<open>
  A new function object: its own properties \<^verbatim>\<open>length\<close> and \<^verbatim>\<open>name\<close>, and, for a
  function written with \<^verbatim>\<open>function\<close>, the property \<^verbatim>\<open>prototype\<close> holding a fresh
  object that points back through \<^verbatim>\<open>constructor\<close>.
\<close>

definition new_function :: "code \<Rightarrow> string \<Rightarrow> int \<Rightarrow> bool \<Rightarrow> val js" where
  "new_function c name len constructor = (\<lambda>st.
     let f = length (heap st);
         base =
           [(KStr ''length'', \<lparr>p_value = VNum len, p_writable = False,
                                p_enumerable = False, p_configurable = True,
                                p_kind = DataProperty\<rparr>),
            (KStr ''name'', \<lparr>p_value = VStr name, p_writable = False,
                              p_enumerable = False, p_configurable = True,
                              p_kind = DataProperty\<rparr>)]
     in if constructor
        then (Inr (VRef f),
              st\<lparr>heap := heap st @
                [\<lparr>o_props = base @
                     [(KStr ''prototype'', \<lparr>p_value = VRef (Suc f), p_writable = True,
                                              p_enumerable = False, p_configurable = False,
                                              p_kind = DataProperty\<rparr>)],
                  o_proto = Some Function_prototype, o_extensible = True, o_code = Some c\<rparr>,
                 \<lparr>o_props =
                     [(KStr ''constructor'', \<lparr>p_value = VRef f, p_writable = True,
                                                p_enumerable = False, p_configurable = True,
                                                p_kind = DataProperty\<rparr>)],
                  o_proto = Some Object_prototype, o_extensible = True, o_code = None\<rparr>]\<rparr>)
        else (Inr (VRef f),
              st\<lparr>heap := heap st @
                [\<lparr>o_props = base, o_proto = Some Function_prototype,
                  o_extensible = True, o_code = Some c\<rparr>]\<rparr>))"

subsection \<open>Conversions\<close>

text \<open>
  The conversions call methods of the value converted, so they take the calling
  function as a parameter: \<open>c f this args\<close> calls \<open>f\<close>.
\<close>

type_synonym callfn = "val \<Rightarrow> val \<Rightarrow> val list \<Rightarrow> val js"

text \<open>The method call \<^verbatim>\<open>v[name](...args)\<close>: the property is read, then called on \<open>v\<close>.\<close>

definition call_method :: "callfn \<Rightarrow> val \<Rightarrow> string \<Rightarrow> val list \<Rightarrow> val js" where
  "call_method c v name args = bind (get v (KStr name)) (\<lambda>m. c m v args)"

text \<open>
  One step of the ordinary conversion of an object to a primitive: call the method
  if it is callable, and keep its result if that is not an object.
\<close>

definition try_method :: "callfn \<Rightarrow> val \<Rightarrow> string \<Rightarrow> val option js" where
  "try_method c v name = (\<lambda>st.
     let m = get_value st v (KStr name)
     in if is_callable st m
        then bind (c m v []) (\<lambda>r. ret (if is_object r then None else Some r)) st
        else (Inr None, st))"

definition ordinary_to_primitive :: "callfn \<Rightarrow> val \<Rightarrow> val js" where
  "ordinary_to_primitive c v =
     bind (try_method c v ''toString'') (\<lambda>r. case r of
        Some p \<Rightarrow> ret p
      | None \<Rightarrow> bind (try_method c v ''valueOf'') (\<lambda>r. case r of
          Some p \<Rightarrow> ret p
        | None \<Rightarrow> throw TypeError))"

text \<open>The conversion of a value to a primitive, a string preferred.\<close>

definition to_primitive :: "callfn \<Rightarrow> val \<Rightarrow> val js" where
  "to_primitive c v = (\<lambda>st.
     if is_object v
     then (let ex = get_value st v (KSym Symbol_toPrimitive)
           in if nullish ex then ordinary_to_primitive c v st
              else if is_callable st ex
              then bind (c ex v [VStr ''string''])
                     (\<lambda>r. if is_object r then throw TypeError else ret r) st
              else (Inl TypeError, st))
     else (Inr v, st))"

definition prim_to_string :: "val \<Rightarrow> string js" where
  "prim_to_string v = (case v of
      VUndefined \<Rightarrow> ret ''undefined''
    | VNull \<Rightarrow> ret ''null''
    | VBool b \<Rightarrow> ret (if b then ''true'' else ''false'')
    | VNum i \<Rightarrow> ret (number_to_string i)
    | VNaN \<Rightarrow> ret ''NaN''
    | VStr s \<Rightarrow> ret s
    | VSym _ \<Rightarrow> throw TypeError
    | VRef _ \<Rightarrow> throw TypeError)"

text \<open>
  The conversion a template literal applies to \<^verbatim>\<open>${v}\<close>: a symbol cannot be
  converted, and an object is converted through its methods.
\<close>

definition to_string :: "callfn \<Rightarrow> val \<Rightarrow> string js" where
  "to_string c v = bind (to_primitive c v) prim_to_string"

definition to_property_key :: "callfn \<Rightarrow> val \<Rightarrow> key js" where
  "to_property_key c v =
     bind (to_primitive c v) (\<lambda>p. case p of
        VSym s \<Rightarrow> ret (KSym s)
      | _ \<Rightarrow> bind (prim_to_string p) (\<lambda>s. ret (KStr s)))"

text \<open>The built-in \<^verbatim>\<open>Object.prototype.hasOwnProperty\<close>.\<close>

definition hasOwnProperty :: "callfn \<Rightarrow> val \<Rightarrow> val list \<Rightarrow> val js" where
  "hasOwnProperty c this args =
     bind (to_property_key c (case args of [] \<Rightarrow> VUndefined | a # _ \<Rightarrow> a)) (\<lambda>k st.
       if nullish this then (Inl TypeError, st)
       else (Inr (VBool (own_prop st this k \<noteq> None)), st))"

section \<open>The module\<close>

subsection \<open>Traits for symbols\<close>

text \<open>
  \<^verbatim>\<open>Symbol.prototype.*impl\<close>: set \<^verbatim>\<open>target[this]\<close> to \<^verbatim>\<open>implementation\<close>, with
  \<^verbatim>\<open>Object.defineProperty(target, this, {value:implementation, configurable:true})\<close>.
\<close>

definition impl :: "sym \<Rightarrow> val \<Rightarrow> val \<Rightarrow> val js" where
  "impl this target implementation =
     bind (defineProperty target (KSym this)
             \<lparr>d_value = Some implementation, d_writable = None,
              d_enumerable = None, d_configurable = Some True\<rparr>)
       (\<lambda>_. ret (VSym this))"

text \<open>\<^verbatim>\<open>Symbol.prototype.*implDefault\<close>: \<^verbatim>\<open>namespace.defaultImpls.set(this, implementation)\<close>.\<close>

definition implDefault :: "sym \<Rightarrow> val \<Rightarrow> val js" where
  "implDefault this implementation = (\<lambda>st.
     (Inr (VSym this), st\<lparr>defaultImpls := (defaultImpls st)(this \<mapsto> implementation)\<rparr>))"

text \<open>
  The function \<^verbatim>\<open>asFreeFunction\<close> returns, called with \<open>args\<close>. Its first parameter is
  \<^verbatim>\<open>target\<close> (\<^verbatim>\<open>undefined\<close> when no argument is given), the rest is \<^verbatim>\<open>args\<close>.
\<close>

definition freeFunction :: "callfn \<Rightarrow> sym \<Rightarrow> string \<Rightarrow> val list \<Rightarrow> val js" where
  "freeFunction c symb symName arguments = (\<lambda>st.
     let target = (case arguments of [] \<Rightarrow> VUndefined | t # _ \<Rightarrow> t);
         args = drop 1 arguments
     in if target = VUndefined \<or> target = VNull
        then (case defaultImpls st symb of
                Some d \<Rightarrow> c d VUndefined (target # args) st
              | None \<Rightarrow>
                  bind (to_string c target)
                    (\<lambda>t. throw (Error (''.*'' @ symName @ '' called on '' @ t))) st)
        else if \<not> truthy (get_value st target (KSym symb))
        then (case defaultImpls st symb of
                Some d \<Rightarrow> c d VUndefined (target # args) st
              | None \<Rightarrow>
                  bind (to_string c target)
                    (\<lambda>t. throw (Error (''.*'' @ symName @ '' called on '' @ t
                                         @ '' that doesn't implement it.''))) st)
        else c (get_value st target (KSym symb)) target args st)"

text \<open>
  \<^verbatim>\<open>Symbol.prototype.*asFreeFunction\<close>: the name is \<^verbatim>\<open>String(this).slice(7, -1)\<close>,
  computed once; the result is a new function object.
\<close>

definition asFreeFunction :: "sym \<Rightarrow> val js" where
  "asFreeFunction this = (\<lambda>st.
     new_function (FreeFunction this (slice (symbol_descriptive_string st this) 7 (- 1)))
       [] 1 True st)"

text \<open>
  The function \<^verbatim>\<open>defineAndImplMethodsAsTraits\<close> binds for a method name: it returns
  \<^verbatim>\<open>source[methodName]( this, ...arguments )\<close>.
\<close>

definition methodWrapper :: "callfn \<Rightarrow> val \<Rightarrow> string \<Rightarrow> val \<Rightarrow> val list \<Rightarrow> val js" where
  "methodWrapper c source methodName this arguments =
     call_method c source methodName (this # arguments)"

subsection \<open>Calling\<close>

text \<open>
  \<open>call n U f this args\<close> calls the value \<open>f\<close> with at most \<open>n\<close> nested calls left on
  the stack; when none is left the call fails with a \<^verbatim>\<open>RangeError\<close>, as a stack
  overflow does. \<open>U\<close> gives the functions of the caller: \<open>U k this args\<close> is what the
  function numbered \<open>k\<close> does.
\<close>

type_synonym user = "nat \<Rightarrow> val \<Rightarrow> val list \<Rightarrow> val js"

fun call :: "nat \<Rightarrow> user \<Rightarrow> val \<Rightarrow> val \<Rightarrow> val list \<Rightarrow> val js" where
  "call 0 U f this args st =
     (if is_callable st f then (Inl RangeError, st) else (Inl TypeError, st))"
| "call (Suc n) U f this args st =
     (case function_code st f of
        None \<Rightarrow> (Inl TypeError, st)
      | Some (User k) \<Rightarrow> U k this args st
      | Some HasOwnProperty \<Rightarrow> hasOwnProperty (call n U) this args st
      | Some (FreeFunction symb symName) \<Rightarrow> freeFunction (call n U) symb symName args st
      | Some (MethodWrapper source methodName) \<Rightarrow>
          methodWrapper (call n U) source methodName this args st)"

subsection \<open>Traits for trait sets\<close>

text \<open>
  \<^verbatim>\<open>Object.prototype.*addSymbol\<close>: two assertions, then \<^verbatim>\<open>return this[name] = sym\<close>.
\<close>

definition addSymbol :: "callfn \<Rightarrow> val \<Rightarrow> string \<Rightarrow> val \<Rightarrow> val js" where
  "addSymbol c this name symb =
     bind (get this (KStr ''hasOwnProperty'')) (\<lambda>h.
     bind (c h this [VStr name]) (\<lambda>r.
       if truthy r
       then throw (AssertionError (''Trying to re-define trait `'' @ name @ ''`''))
       else if \<not> is_symbol symb
       then throw (AssertionError (''Trying to add `'' @ name @ ''`, but it's not a symbol''))
       else set_prop this (KStr name) symb))"

text \<open>\<^verbatim>\<open>Object.prototype.*defineTrait\<close>: \<^verbatim>\<open>this.*addSymbol( name, Symbol(name) )\<close>.\<close>

definition defineTrait :: "callfn \<Rightarrow> val \<Rightarrow> string \<Rightarrow> val js" where
  "defineTrait c this name = (\<lambda>st.
     case new_symbol name st of (s, st') \<Rightarrow> addSymbol c this name (VSym s) st')"

text \<open>
  \<^verbatim>\<open>Object.prototype.*borrowTraits\<close>. Without \<open>names\<close> every key of \<open>traitSet\<close> that
  holds a symbol is added; with \<open>names\<close>, each of them.
\<close>

definition borrowTraits :: "callfn \<Rightarrow> val \<Rightarrow> val \<Rightarrow> string list option \<Rightarrow> val js" where
  "borrowTraits c this traitSet names = (case names of
      None \<Rightarrow> (\<lambda>st.
        bind (for_each (for_in_keys st traitSet) (\<lambda>key.
                bind (get traitSet (KStr key)) (\<lambda>symb.
                  if is_symbol symb
                  then bind (addSymbol c this key symb) (\<lambda>_. ret ())
                  else ret ())))
          (\<lambda>_. ret this) st)
    | Some ns \<Rightarrow>
        bind (for_each ns (\<lambda>name.
                bind (get traitSet (KStr name)) (\<lambda>symb.
                  bind (addSymbol c this name symb) (\<lambda>_. ret ()))))
          (\<lambda>_. ret this))"



text \<open>
  \<^verbatim>\<open>Object.prototype.*defineAndImplMethodsAsTraits\<close>: for each method name, a new
  trait is defined, then the wrapping function is created and implemented on the
  target. (The object literal around the function only gives it its name.)
\<close>

definition defineAndImplMethodsAsTraits_step ::
  "callfn \<Rightarrow> val \<Rightarrow> val \<Rightarrow> val \<Rightarrow> string \<Rightarrow> unit js" where
  "defineAndImplMethodsAsTraits_step c this target source methodName =
     bind (defineTrait c this methodName) (\<lambda>symb. case symb of
        VSym s \<Rightarrow>
          bind (new_function (MethodWrapper source methodName) methodName 0 False) (\<lambda>w.
            bind (impl s target w) (\<lambda>_. ret ()))
      | _ \<Rightarrow> throw TypeError)"

definition defineAndImplMethodsAsTraits ::
  "callfn \<Rightarrow> val \<Rightarrow> val \<Rightarrow> val \<Rightarrow> string list \<Rightarrow> val js" where
  "defineAndImplMethodsAsTraits c this target source methodList =
     bind (for_each methodList (defineAndImplMethodsAsTraits_step c this target source))
       (\<lambda>_. ret this)"

section \<open>Notions the claims use\<close>

text \<open>
  A target has a binding for an identifier when the property read \<^verbatim>\<open>target[id]\<close>
  finds a property, on the target or on an object it delegates to. \<^verbatim>\<open>undefined\<close> and
  \<^verbatim>\<open>null\<close> have none.
\<close>

definition has_binding :: "state \<Rightarrow> val \<Rightarrow> sym \<Rightarrow> bool" where
  "has_binding st target s =
     (if nullish target then False else find_prop st target (KSym s) \<noteq> None)"

text \<open>
  A target on which a property can be defined with \<^verbatim>\<open>configurable: true\<close>: an object
  that has the property and may reconfigure it, or has not and is extensible.
\<close>

definition definable :: "state \<Rightarrow> val \<Rightarrow> key \<Rightarrow> bool" where
  "definable st target k = (case target of
      VRef a \<Rightarrow>
        (case obj_at (heap st) a of
           None \<Rightarrow> False
         | Some ob \<Rightarrow>
             (case map_of (o_props ob) k of
                None \<Rightarrow> o_extensible ob
              | Some p \<Rightarrow> p_configurable p))
    | _ \<Rightarrow> False)"

text \<open>
  The property a value has under a key, on itself or on its prototype chain, is the
  accessor: an assignment to it calls the setter and stores no property. In an
  untouched environment this is so for the key \<^verbatim>\<open>__proto__\<close> of every object that
  inherits from \<^verbatim>\<open>Object.prototype\<close>, and for no other key.
\<close>

definition reaches_accessor :: "state \<Rightarrow> val \<Rightarrow> key \<Rightarrow> bool" where
  "reaches_accessor st v k =
     (case find_prop st v k of None \<Rightarrow> False | Some p \<Rightarrow> p_kind p = ProtoAccessor)"

text \<open>
  The property \<^verbatim>\<open>hasOwnProperty\<close> of a value is the built-in function, as it is for
  an object that inherits it from \<^verbatim>\<open>Object.prototype\<close> and does not shadow it.
\<close>

definition builtin_hasOwnProperty :: "state \<Rightarrow> val \<Rightarrow> bool" where
  "builtin_hasOwnProperty st v =
     (function_code st (get_value st v (KStr ''hasOwnProperty'')) = Some HasOwnProperty)"

text \<open>
  Two heaps agree on a key when the second has every object of the first, with the
  same prototype, the same code and the same own property for the key. (Used to carry
  facts across the steps of a loop.)
\<close>

definition agree_on :: "obj list \<Rightarrow> obj list \<Rightarrow> key \<Rightarrow> bool" where
  "agree_on h h' k =
     (length h \<le> length h' \<and>
      list_all (\<lambda>a. map_of (o_props (h' ! a)) k = map_of (o_props (h ! a)) k
                      \<and> o_proto (h' ! a) = o_proto (h ! a)
                      \<and> o_code (h' ! a) = o_code (h ! a)) [0..<length h])"

section \<open>A small realm\<close>

text \<open>
  A concrete state on which the operations can be run: the intrinsic prototypes,
  \<^verbatim>\<open>Object.prototype\<close> with \<^verbatim>\<open>hasOwnProperty\<close> and \<^verbatim>\<open>toString\<close>, and a handful of
  objects of a caller.
\<close>

definition function_obj :: "code \<Rightarrow> obj" where
  "function_obj c =
     \<lparr>o_props = [], o_proto = Some Function_prototype, o_extensible = True, o_code = Some c\<rparr>"

definition plain_obj :: "(key \<times> property) list \<Rightarrow> obj" where
  "plain_obj ps =
     \<lparr>o_props = ps, o_proto = Some Object_prototype, o_extensible = True, o_code = None\<rparr>"

definition builtin_field :: "val \<Rightarrow> property" where
  "builtin_field v =
     \<lparr>p_value = v, p_writable = True, p_enumerable = False, p_configurable = True,
      p_kind = DataProperty\<rparr>"

definition field :: "val \<Rightarrow> property" where
  "field v =
     \<lparr>p_value = v, p_writable = True, p_enumerable = True, p_configurable = True,
      p_kind = DataProperty\<rparr>"

text \<open>The property \<^verbatim>\<open>__proto__\<close> of \<^verbatim>\<open>Object.prototype\<close>.\<close>

definition proto_accessor :: property where
  "proto_accessor =
     \<lparr>p_value = VUndefined, p_writable = False, p_enumerable = False, p_configurable = True,
      p_kind = ProtoAccessor\<rparr>"

text \<open>
  The caller's functions: number 0 is \<^verbatim>\<open>Object.prototype.toString\<close> on a plain object,
  number 1 is \<^verbatim>\<open>function(x) { return this.value + x }\<close>, number 2 is
  \<^verbatim>\<open>function(x) { return x }\<close>, and every other one returns \<^verbatim>\<open>undefined\<close>.
\<close>

definition U0 :: user where
  "U0 k this args = (\<lambda>st.
     if k = 0 then (Inr (VStr ''[object Object]''), st)
     else if k = 1
     then (case (get_value st this (KStr ''value''), args) of
             (VNum a, VNum b # _) \<Rightarrow> (Inr (VNum (a + b)), st)
           | _ \<Rightarrow> (Inr VNaN, st))
     else if k = 2
     then (case args of [] \<Rightarrow> (Inr VUndefined, st) | a # _ \<Rightarrow> (Inr a, st))
     else (Inr VUndefined, st))"

text \<open>
  Addresses 0 to 5 are the intrinsic prototypes (\<^verbatim>\<open>Object.prototype\<close> with its
  accessor \<^verbatim>\<open>__proto__\<close>), 6 is \<^verbatim>\<open>hasOwnProperty\<close>, 7 is
  \<^verbatim>\<open>toString\<close>; 8 is an empty trait set, 9 the object \<^verbatim>\<open>{value: 10}\<close>, 10 and 11 the
  caller's functions 1 and 2, 12 the object \<^verbatim>\<open>{serialize: f2}\<close>, 13 the trait set
  \<^verbatim>\<open>{add: Symbol('add')}\<close>, 14 the object \<^verbatim>\<open>{add: f1, mul: f2}\<close>. Symbol 0 is
  \<^verbatim>\<open>Symbol.toPrimitive\<close>, symbol 1 is \<^verbatim>\<open>Symbol('add')\<close>.
\<close>

definition realm :: state where
  "realm =
     \<lparr>heap =
        [\<lparr>o_props = [(KStr ''hasOwnProperty'', builtin_field (VRef 6)),
                     (KStr ''toString'', builtin_field (VRef 7)),
                     (KStr ''__proto__'', proto_accessor)],
          o_proto = None, o_extensible = True, o_code = None\<rparr>,
         \<lparr>o_props = [], o_proto = Some Object_prototype, o_extensible = True,
          o_code = Some (User 3)\<rparr>,
         plain_obj [], plain_obj [], plain_obj [], plain_obj [],
         function_obj HasOwnProperty,
         function_obj (User 0),
         plain_obj [],
         plain_obj [(KStr ''value'', field (VNum 10))],
         function_obj (User 1),
         function_obj (User 2),
         plain_obj [(KStr ''serialize'', field (VRef 11))],
         plain_obj [(KStr ''add'', field (VSym 1))],
         plain_obj [(KStr ''add'', field (VRef 10)), (KStr ''mul'', field (VRef 11))]],
      symbols = [Some ''Symbol.toPrimitive'', Some ''add''],
      defaultImpls = Map.empty\<rparr>"

text \<open>
  The realm with two more objects, written with a computed key, which defines an own
  data property named \<^verbatim>\<open>__proto__\<close>: at address 15 the trait set
  \<^verbatim>\<open>{['__proto__']: Symbol('add')}\<close>, which holds symbol 1 under that name, and at
  address 16 the object \<^verbatim>\<open>{['__proto__'](x) { return x; }}\<close>, whose method of that
  name is the function at address 11.
\<close>

definition realm_proto :: state where
  "realm_proto =
     realm\<lparr>heap := heap realm @
       [plain_obj [(KStr ''__proto__'', field (VSym 1))],
        plain_obj [(KStr ''__proto__'', field (VRef 11))]]\<rparr>"

text \<open>The state after an operation, and its result.\<close>

definition after :: "'a js \<Rightarrow> state \<Rightarrow> state" where
  "after m st = snd (m st)"

definition result :: "'a js \<Rightarrow> state \<Rightarrow> error + 'a" where
  "result m st = fst (m st)"

section \<open>Basic facts\<close>

lemma ret_apply: "ret v st = (Inr v, st)"
  by (simp add: ret_def)

lemma bind_apply:
  "bind m f st = (case m st of (Inl e, st') \<Rightarrow> (Inl e, st') | (Inr v, st') \<Rightarrow> f v st')"
  by (simp add: bind_def)

lemma throw_apply: "throw e st = (Inl e, st)"
  by (simp add: throw_def)

lemma bind_Inr: "m st = (Inr v, st') \<Longrightarrow> bind m f st = f v st'"
  by (simp add: bind_def)

lemma bind_Inl: "m st = (Inl e, st') \<Longrightarrow> bind m f st = (Inl e, st')"
  by (simp add: bind_def)

lemma bind_eq_Inr:
  assumes "bind m f st = (Inr r, st2)"
  obtains v st1 where "m st = (Inr v, st1)" and "f v st1 = (Inr r, st2)"
  using assms by (auto simp: bind_def split: prod.splits sum.splits)

lemma obj_at_append: "a < length h \<Longrightarrow> obj_at (h @ hs) a = obj_at h a"
  by (simp add: obj_at_def nth_append)

lemma obj_at_update:
  "obj_at (h[a := ob]) b = (if b = a \<and> a < length h then Some ob else obj_at h b)"
  by (simp add: obj_at_def)

lemma obj_at_Some_less: "obj_at h a = Some ob \<Longrightarrow> a < length h"
  by (simp add: obj_at_def split: if_splits)

lemma define_own_value:
  assumes "define_own ob k d = Some ob'" and "d_value d = Some v"
  shows "\<exists>p. map_of (o_props ob') k = Some p \<and> p_value p = v \<and> p_kind p = DataProperty"
  using assms
  by (auto simp: define_own_def update_conv' new_prop_def apply_desc_def or_else_def
      is_data_desc_def split: option.splits if_splits kind.splits)

lemma define_own_other:
  assumes "define_own ob k d = Some ob'" and "k' \<noteq> k"
  shows "map_of (o_props ob') k' = map_of (o_props ob) k'"
  using assms
  by (auto simp: define_own_def update_conv' split: option.splits if_splits)

lemma define_own_frame:
  assumes "define_own ob k d = Some ob'"
  shows "o_proto ob' = o_proto ob" and "o_code ob' = o_code ob"
    and "o_extensible ob' = o_extensible ob"
  using assms
  by (auto simp: define_own_def split: option.splits if_splits)

lemma defineProperty_Inr:
  assumes "defineProperty t k d st = (Inr r, st')"
  obtains a ob ob' where "t = VRef a" and "obj_at (heap st) a = Some ob"
    and "define_own ob k d = Some ob'" and "st' = st\<lparr>heap := (heap st)[a := ob']\<rparr>"
    and "r = t"
  using assms
  by (auto simp: defineProperty_def split: val.splits option.splits)

lemma impl_Inr:
  assumes "impl s t fn st = (Inr r, st')"
  obtains a ob ob' where "t = VRef a" and "obj_at (heap st) a = Some ob"
    and "define_own ob (KSym s)
           \<lparr>d_value = Some fn, d_writable = None, d_enumerable = None,
            d_configurable = Some True\<rparr> = Some ob'"
    and "st' = st\<lparr>heap := (heap st)[a := ob']\<rparr>" and "r = VSym s"
proof -
  from assms obtain v st1 where
    d: "defineProperty t (KSym s)
          \<lparr>d_value = Some fn, d_writable = None, d_enumerable = None,
           d_configurable = Some True\<rparr> st = (Inr v, st1)"
    and r: "ret (VSym s) st1 = (Inr r, st')"
    unfolding impl_def by (rule bind_eq_Inr)
  from r have "r = VSym s" and "st' = st1" by (simp_all add: ret_def)
  with d show thesis
    by (auto elim!: defineProperty_Inr intro: that)
qed

lemma impl_own_prop:
  assumes "impl s t fn st = (Inr r, st')"
  obtains p where "own_prop st' t (KSym s) = Some p" and "p_value p = fn"
    and "p_kind p = DataProperty"
proof -
  from assms obtain a ob ob' where t: "t = VRef a" and ob: "obj_at (heap st) a = Some ob"
    and d: "define_own ob (KSym s)
           \<lparr>d_value = Some fn, d_writable = None, d_enumerable = None,
            d_configurable = Some True\<rparr> = Some ob'"
    and st': "st' = st\<lparr>heap := (heap st)[a := ob']\<rparr>"
    by (rule impl_Inr)
  from define_own_value[OF d] obtain p where
    p: "map_of (o_props ob') (KSym s) = Some p" "p_value p = fn" "p_kind p = DataProperty"
    by auto
  from ob have "a < length (heap st)" by (rule obj_at_Some_less)
  with p t st' have "own_prop st' t (KSym s) = Some p"
    by (simp add: own_prop_def obj_at_update)
  then show thesis using p(2,3) by (rule that)
qed

lemma own_prop_heap_append:
  assumes "heap st' = heap st @ hs" and "own_prop st v k = Some p"
  shows "own_prop st' v k = Some p"
proof (cases v)
  case (VRef a)
  with assms(2) obtain ob where ob: "obj_at (heap st) a = Some ob"
    by (auto simp: own_prop_def split: option.splits)
  then have "a < length (heap st)" by (rule obj_at_Some_less)
  then have "obj_at (heap st') a = obj_at (heap st) a"
    using assms(1) by (simp add: obj_at_append)
  with assms(2) VRef show ?thesis by (simp add: own_prop_def)
qed (use assms in \<open>simp_all add: own_prop_def\<close>)

lemma get_value_own:
  "own_prop st v k = Some p \<Longrightarrow> p_kind p = DataProperty \<Longrightarrow> get_value st v k = p_value p"
  by (simp add: get_value_def find_prop_def)

lemma new_function_cases:
  obtains ob hs where
    "new_function c name len b st = (Inr (VRef (length (heap st))), st\<lparr>heap := heap st @ ob # hs\<rparr>)"
    and "o_code ob = Some c"
proof (cases b)
  case True
  show thesis
    by (rule that) (simp add: new_function_def Let_def True, simp)
next
  case False
  show thesis
    by (rule that) (simp add: new_function_def Let_def False, simp)
qed

lemma function_code_alloc:
  "function_code (st\<lparr>heap := heap st @ ob # hs\<rparr>) (VRef (length (heap st))) = o_code ob"
  by (simp add: function_code_def obj_at_def)

lemma free_call:
  assumes "function_code st f = Some (FreeFunction s nm)"
    and "\<not> nullish target" and "truthy (get_value st target (KSym s))"
  shows "call (Suc n) U f this (target # args) st
           = call n U (get_value st target (KSym s)) target args st"
  using assms by (simp add: freeFunction_def nullish_def)

lemma free_call_after_impl:
  assumes "impl s target fn st0 = (Inr r, st1)"
    and "asFreeFunction s st1 = (Inr f, st2)"
    and "truthy fn"
  shows "call (Suc n) U f this (target # args) st2 = call n U fn target args st2"
proof -
  obtain ob hs where nf:
    "asFreeFunction s st1 = (Inr (VRef (length (heap st1))), st1\<lparr>heap := heap st1 @ ob # hs\<rparr>)"
    and c: "o_code ob = Some (FreeFunction s (slice (symbol_descriptive_string st1 s) 7 (- 1)))"
    unfolding asFreeFunction_def by (rule new_function_cases)
  from nf assms(2) have f: "f = VRef (length (heap st1))"
    and st2: "st2 = st1\<lparr>heap := heap st1 @ ob # hs\<rparr>" by simp_all
  from c have code: "function_code st2 f = Some (FreeFunction s (slice (symbol_descriptive_string st1 s) 7 (- 1)))"
    unfolding f st2 by (simp add: function_code_alloc)
  from assms(1) obtain a where t: "target = VRef a" by (rule impl_Inr)
  from assms(1) obtain p where p: "own_prop st1 target (KSym s) = Some p" "p_value p = fn"
    "p_kind p = DataProperty"
    by (rule impl_own_prop)
  have "own_prop st2 target (KSym s) = Some p"
    by (rule own_prop_heap_append[OF _ p(1)]) (simp add: st2)
  then have gv: "get_value st2 target (KSym s) = fn"
    using p(2,3) by (simp add: get_value_own)
  show ?thesis
    using free_call[OF code, of target n U this args] assms(3) t gv by (simp add: nullish_def)
qed


section \<open>Binding and dispatch\<close>

text \<open>
  Claim C1. After \<^verbatim>\<open>implement(target, id, fn)\<close> has returned, the callable derived
  from \<open>id\<close>, called as \<^verbatim>\<open>dispatch(target, ...args)\<close>, does what calling \<open>fn\<close> with
  \<open>target\<close> as \<^verbatim>\<open>this\<close> and \<open>args\<close> as arguments does: the same result (a returned
  value or a thrown error, unchanged) and the same final state. The dispatch is one
  call deeper than the call of \<open>fn\<close>. An implementation function is an object, hence
  truthy.
\<close>

theorem dispatch_after_implement:
  assumes "impl s target fn st0 = (Inr r, st1)"
    and "asFreeFunction s st1 = (Inr f, st2)"
    and "truthy fn"
  shows "call (Suc n) U f this (target # args) st2 = call n U fn target args st2"
  using assms by (rule free_call_after_impl)

lemma run_eq: "result m st = Inr v \<Longrightarrow> m st = (Inr v, after m st)"
  by (simp add: result_def after_def prod_eq_iff)

theorem dispatch_after_implement_witness:
  "impl 1 (VRef 9) (VRef 10) realm = (Inr (VSym 1), after (impl 1 (VRef 9) (VRef 10)) realm)
   \<and> asFreeFunction 1 (after (impl 1 (VRef 9) (VRef 10)) realm)
       = (Inr (VRef 15), after (asFreeFunction 1) (after (impl 1 (VRef 9) (VRef 10)) realm))
   \<and> truthy (VRef 10)
   \<and> result (call (Suc 1) U0 (VRef 15) VUndefined [VRef 9, VNum 5])
        (after (asFreeFunction 1) (after (impl 1 (VRef 9) (VRef 10)) realm)) = Inr (VNum 15)"
proof -
  have h1: "impl 1 (VRef 9) (VRef 10) realm
              = (Inr (VSym 1), after (impl 1 (VRef 9) (VRef 10)) realm)"
    by (rule run_eq) code_simp
  have h2: "asFreeFunction 1 (after (impl 1 (VRef 9) (VRef 10)) realm)
       = (Inr (VRef 15), after (asFreeFunction 1) (after (impl 1 (VRef 9) (VRef 10)) realm))"
    by (rule run_eq) code_simp
  have h3: "truthy (VRef 10)" by (simp add: truthy_def)
  have h4: "result (call 1 U0 (VRef 10) (VRef 9) [VNum 5])
        (after (asFreeFunction 1) (after (impl 1 (VRef 9) (VRef 10)) realm)) = Inr (VNum 15)"
    by code_simp
  have "call (Suc 1) U0 (VRef 15) VUndefined [VRef 9, VNum 5]
          (after (asFreeFunction 1) (after (impl 1 (VRef 9) (VRef 10)) realm))
        = call 1 U0 (VRef 10) (VRef 9) [VNum 5]
          (after (asFreeFunction 1) (after (impl 1 (VRef 9) (VRef 10)) realm))"
    by (rule dispatch_after_implement[OF h1 h2 h3])
  then have "result (call (Suc 1) U0 (VRef 15) VUndefined [VRef 9, VNum 5])
        (after (asFreeFunction 1) (after (impl 1 (VRef 9) (VRef 10)) realm)) = Inr (VNum 15)"
    using h4 by (simp only: result_def)
  with h1 h2 h3 show ?thesis by (simp only: simp_thms)
qed

lemma asFreeFunction_cases:
  obtains ob hs where
    "asFreeFunction s st = (Inr (VRef (length (heap st))), st\<lparr>heap := heap st @ ob # hs\<rparr>)"
    and "o_code ob = Some (FreeFunction s (slice (symbol_descriptive_string st s) 7 (- 1)))"
  unfolding asFreeFunction_def by (rule new_function_cases)

lemma asFreeFunction_code:
  assumes "asFreeFunction s st = (Inr f, st')"
  shows "function_code st' f = Some (FreeFunction s (slice (symbol_descriptive_string st s) 7 (- 1)))"
    and "\<exists>hs. heap st' = heap st @ hs"
    and "defaultImpls st' = defaultImpls st"
    and "symbols st' = symbols st"
proof -
  obtain ob hs where nf:
    "asFreeFunction s st = (Inr (VRef (length (heap st))), st\<lparr>heap := heap st @ ob # hs\<rparr>)"
    and c: "o_code ob = Some (FreeFunction s (slice (symbol_descriptive_string st s) 7 (- 1)))"
    by (rule asFreeFunction_cases)
  from nf assms have f: "f = VRef (length (heap st))"
    and st': "st' = st\<lparr>heap := heap st @ ob # hs\<rparr>" by simp_all
  show "function_code st' f = Some (FreeFunction s (slice (symbol_descriptive_string st s) 7 (- 1)))"
    unfolding f st' using c by (simp add: function_code_alloc)
  show "\<exists>hs. heap st' = heap st @ hs" unfolding st' by simp
  show "defaultImpls st' = defaultImpls st" unfolding st' by simp
  show "symbols st' = symbols st" unfolding st' by simp
qed

lemma free_call_default:
  assumes "function_code st f = Some (FreeFunction s nm)"
    and "nullish target \<or> \<not> truthy (get_value st target (KSym s))"
    and "defaultImpls st s = Some d"
  shows "call (Suc n) U f this (target # args) st = call n U d VUndefined (target # args) st"
  using assms by (auto simp: freeFunction_def nullish_def)

lemma free_call_no_arguments:
  assumes "function_code st f = Some (FreeFunction s nm)"
    and "defaultImpls st s = Some d"
  shows "call (Suc n) U f this [] st = call n U d VUndefined [VUndefined] st"
  using assms by (simp add: freeFunction_def)

lemma unbound_get_value:
  "\<not> has_binding st target s \<Longrightarrow> nullish target \<or> get_value st target (KSym s) = VUndefined"
  by (auto simp: has_binding_def get_value_def split: if_splits)

text \<open>
  Claim C2. When \<^verbatim>\<open>setDefault(id, fn)\<close> has been called and the target has no binding
  for \<open>id\<close> (the target may be \<^verbatim>\<open>null\<close> or \<^verbatim>\<open>undefined\<close>), the callable derived from
  \<open>id\<close>, called as \<^verbatim>\<open>dispatch(target, ...args)\<close>, does what \<^verbatim>\<open>fn(target, ...args)\<close> does:
  the default receives the target as its first argument, then the arguments of the
  call, and no receiver. Called with no argument at all, the callable passes
  \<^verbatim>\<open>undefined\<close> as the target.
\<close>

theorem default_fallback:
  assumes "implDefault s fn st0 = (r, st1)"
    and "asFreeFunction s st1 = (Inr f, st2)"
    and "\<not> has_binding st2 target s"
  shows "call (Suc n) U f this (target # args) st2 = call n U fn VUndefined (target # args) st2
       \<and> call (Suc n) U f this [] st2 = call n U fn VUndefined [VUndefined] st2"
proof -
  from assms(1) have "defaultImpls st1 s = Some fn"
    by (auto simp: implDefault_def)
  with asFreeFunction_code(3)[OF assms(2)] have d: "defaultImpls st2 s = Some fn" by simp
  from unbound_get_value[OF assms(3)]
  have "nullish target \<or> \<not> truthy (get_value st2 target (KSym s))"
    by (auto simp: truthy_def)
  from free_call_default[OF asFreeFunction_code(1)[OF assms(2)] this d]
    free_call_no_arguments[OF asFreeFunction_code(1)[OF assms(2)] d]
  show ?thesis by (intro conjI)
qed

theorem default_fallback_witness:
  "implDefault 1 (VRef 11) realm = (Inr (VSym 1), after (implDefault 1 (VRef 11)) realm)
   \<and> asFreeFunction 1 (after (implDefault 1 (VRef 11)) realm)
       = (Inr (VRef 15), after (asFreeFunction 1) (after (implDefault 1 (VRef 11)) realm))
   \<and> \<not> has_binding (after (asFreeFunction 1) (after (implDefault 1 (VRef 11)) realm)) VNull 1
   \<and> result (call (Suc 1) U0 (VRef 15) VUndefined [VNull, VNum 5])
        (after (asFreeFunction 1) (after (implDefault 1 (VRef 11)) realm)) = Inr VNull"
proof -
  have h1: "implDefault 1 (VRef 11) realm = (Inr (VSym 1), after (implDefault 1 (VRef 11)) realm)"
    by (rule run_eq) code_simp
  have h2: "asFreeFunction 1 (after (implDefault 1 (VRef 11)) realm)
       = (Inr (VRef 15), after (asFreeFunction 1) (after (implDefault 1 (VRef 11)) realm))"
    by (rule run_eq) code_simp
  have h3: "\<not> has_binding (after (asFreeFunction 1) (after (implDefault 1 (VRef 11)) realm)) VNull 1"
    by (simp add: has_binding_def nullish_def)
  have h4: "result (call 1 U0 (VRef 11) VUndefined [VNull, VNum 5])
        (after (asFreeFunction 1) (after (implDefault 1 (VRef 11)) realm)) = Inr VNull"
    by code_simp
  have "call (Suc 1) U0 (VRef 15) VUndefined [VNull, VNum 5]
          (after (asFreeFunction 1) (after (implDefault 1 (VRef 11)) realm))
        = call 1 U0 (VRef 11) VUndefined [VNull, VNum 5]
          (after (asFreeFunction 1) (after (implDefault 1 (VRef 11)) realm))"
    by (rule default_fallback[OF h1 h2 h3, THEN conjunct1])
  then have "result (call (Suc 1) U0 (VRef 15) VUndefined [VNull, VNum 5])
        (after (asFreeFunction 1) (after (implDefault 1 (VRef 11)) realm)) = Inr VNull"
    using h4 by (simp only: result_def)
  with h1 h2 h3 show ?thesis by (simp only: simp_thms)
qed

lemma define_own_configurable:
  assumes "define_own ob k d = Some ob'" and "d_configurable d = Some True"
  shows "\<exists>p. map_of (o_props ob') k = Some p \<and> p_configurable p"
  using assms
  by (auto simp: define_own_def update_conv' new_prop_def apply_desc_def or_else_def
      split: option.splits if_splits kind.splits)

lemma definable_impl:
  assumes "definable st target (KSym s)"
  obtains st' where "impl s target fn st = (Inr (VSym s), st')"
  using assms
  by (auto simp: definable_def impl_def bind_def defineProperty_def define_own_def ret_def
      desc_allowed_def split: val.splits option.splits)


lemma impl_definable_after:
  assumes "impl s target fn st = (Inr r, st')"
  shows "definable st' target (KSym s)"
proof -
  from assms obtain a ob ob' where t: "target = VRef a" and ob: "obj_at (heap st) a = Some ob"
    and d: "define_own ob (KSym s)
           \<lparr>d_value = Some fn, d_writable = None, d_enumerable = None,
            d_configurable = Some True\<rparr> = Some ob'"
    and st': "st' = st\<lparr>heap := (heap st)[a := ob']\<rparr>"
    by (rule impl_Inr)
  from define_own_configurable[OF d] obtain p where
    "map_of (o_props ob') (KSym s) = Some p" "p_configurable p" by auto
  moreover from ob have "a < length (heap st)" by (rule obj_at_Some_less)
  ultimately show ?thesis unfolding t st' by (simp add: definable_def obj_at_update)
qed

text \<open>
  Claim C6. After \<^verbatim>\<open>implement(target, id, fnA)\<close> has returned,
  \<^verbatim>\<open>implement(target, id, fnB)\<close> returns \<open>id\<close> as well, without an error, and the
  dispatch on \<open>target\<close> that follows calls \<open>fnB\<close>: nothing of \<open>fnA\<close> is left.
\<close>

theorem last_write_wins:
  assumes "impl s target fnA st0 = (Inr r, st1)"
    and "impl s target fnB st1 = (rb, st2)"
    and "asFreeFunction s st2 = (Inr f, st3)"
    and "truthy fnB"
  shows "rb = Inr (VSym s)
       \<and> call (Suc n) U f this (target # args) st3 = call n U fnB target args st3"
proof -
  from impl_definable_after[OF assms(1)] obtain st2' where
    "impl s target fnB st1 = (Inr (VSym s), st2')" by (rule definable_impl)
  with assms(2) have rb: "rb = Inr (VSym s)" and i2: "impl s target fnB st1 = (Inr (VSym s), st2)"
    by simp_all
  from i2 obtain a where t: "target = VRef a" by (rule impl_Inr)
  from i2 obtain p where p: "own_prop st2 target (KSym s) = Some p" "p_value p = fnB"
    "p_kind p = DataProperty"
    by (rule impl_own_prop)
  from asFreeFunction_code(2)[OF assms(3)] obtain hs where "heap st3 = heap st2 @ hs" ..
  from own_prop_heap_append[OF this p(1)] p(2,3)
  have gv: "get_value st3 target (KSym s) = fnB" by (simp add: get_value_own)
  from free_call[OF asFreeFunction_code(1)[OF assms(3)], of target n U this args] assms(4) t gv
  have "call (Suc n) U f this (target # args) st3 = call n U fnB target args st3"
    by (simp add: nullish_def)
  with rb show ?thesis by simp
qed

theorem last_write_wins_witness:
  "impl 1 (VRef 9) (VRef 11) realm = (Inr (VSym 1), after (impl 1 (VRef 9) (VRef 11)) realm)
   \<and> impl 1 (VRef 9) (VRef 10) (after (impl 1 (VRef 9) (VRef 11)) realm)
       = (result (impl 1 (VRef 9) (VRef 10)) (after (impl 1 (VRef 9) (VRef 11)) realm),
          after (impl 1 (VRef 9) (VRef 10)) (after (impl 1 (VRef 9) (VRef 11)) realm))
   \<and> asFreeFunction 1
         (after (impl 1 (VRef 9) (VRef 10)) (after (impl 1 (VRef 9) (VRef 11)) realm))
       = (Inr (VRef 15),
          after (asFreeFunction 1)
            (after (impl 1 (VRef 9) (VRef 10)) (after (impl 1 (VRef 9) (VRef 11)) realm)))
   \<and> truthy (VRef 10)
   \<and> result (impl 1 (VRef 9) (VRef 10)) (after (impl 1 (VRef 9) (VRef 11)) realm)
       = Inr (VSym 1)
   \<and> result (call (Suc 1) U0 (VRef 15) VUndefined [VRef 9, VNum 5])
        (after (asFreeFunction 1)
          (after (impl 1 (VRef 9) (VRef 10)) (after (impl 1 (VRef 9) (VRef 11)) realm)))
       = Inr (VNum 15)"
proof -
  have h1: "impl 1 (VRef 9) (VRef 11) realm
              = (Inr (VSym 1), after (impl 1 (VRef 9) (VRef 11)) realm)"
    by (rule run_eq) code_simp
  have h2: "impl 1 (VRef 9) (VRef 10) (after (impl 1 (VRef 9) (VRef 11)) realm)
       = (result (impl 1 (VRef 9) (VRef 10)) (after (impl 1 (VRef 9) (VRef 11)) realm),
          after (impl 1 (VRef 9) (VRef 10)) (after (impl 1 (VRef 9) (VRef 11)) realm))"
    by (simp add: result_def after_def)
  have h3: "asFreeFunction 1
         (after (impl 1 (VRef 9) (VRef 10)) (after (impl 1 (VRef 9) (VRef 11)) realm))
       = (Inr (VRef 15),
          after (asFreeFunction 1)
            (after (impl 1 (VRef 9) (VRef 10)) (after (impl 1 (VRef 9) (VRef 11)) realm)))"
    by (rule run_eq) code_simp
  have h4: "truthy (VRef 10)" by (simp add: truthy_def)
  have h5: "result (call 1 U0 (VRef 10) (VRef 9) [VNum 5])
        (after (asFreeFunction 1)
          (after (impl 1 (VRef 9) (VRef 10)) (after (impl 1 (VRef 9) (VRef 11)) realm)))
       = Inr (VNum 15)"
    by code_simp
  from last_write_wins[OF h1 h2 h3 h4, of 1 U0 VUndefined "[VNum 5]"]
  have "result (impl 1 (VRef 9) (VRef 10)) (after (impl 1 (VRef 9) (VRef 11)) realm)
       = Inr (VSym 1)"
    and "call (Suc 1) U0 (VRef 15) VUndefined [VRef 9, VNum 5]
        (after (asFreeFunction 1)
          (after (impl 1 (VRef 9) (VRef 10)) (after (impl 1 (VRef 9) (VRef 11)) realm)))
       = call 1 U0 (VRef 10) (VRef 9) [VNum 5]
        (after (asFreeFunction 1)
          (after (impl 1 (VRef 9) (VRef 10)) (after (impl 1 (VRef 9) (VRef 11)) realm)))"
    by blast+
  then have "result (impl 1 (VRef 9) (VRef 10)) (after (impl 1 (VRef 9) (VRef 11)) realm)
       = Inr (VSym 1)"
    and "result (call (Suc 1) U0 (VRef 15) VUndefined [VRef 9, VNum 5])
        (after (asFreeFunction 1)
          (after (impl 1 (VRef 9) (VRef 10)) (after (impl 1 (VRef 9) (VRef 11)) realm)))
       = Inr (VNum 15)"
    using h5 by (simp_all only: result_def)
  with h1 h2 h3 h4 show ?thesis by (simp only: simp_thms)
qed



lemma slice_symbol_name:
  "slice (symbol_descriptive_string st s) 7 (- 1)
     = (case symbol_description st s of None \<Rightarrow> [] | Some d \<Rightarrow> d)"
  by (simp add: slice_def symbol_descriptive_string_def Let_def split: option.splits)

lemma free_call_no_implementation:
  assumes "function_code st f = Some (FreeFunction s nm)"
    and "nullish target \<or> \<not> truthy (get_value st target (KSym s))"
    and "defaultImpls st s = None"
    and "to_string (call n U) target st = (Inr t, st')"
  shows "call (Suc n) U f this (target # args) st
           = (Inl (Error (''.*'' @ nm @ '' called on '' @ t
                @ (if nullish target then [] else '' that doesn't implement it.''))), st')"
  using assms by (auto simp: freeFunction_def nullish_def bind_def throw_def)

lemma free_call_no_implementation_unprintable:
  assumes "function_code st f = Some (FreeFunction s nm)"
    and "nullish target \<or> \<not> truthy (get_value st target (KSym s))"
    and "defaultImpls st s = None"
    and "to_string (call n U) target st = (Inl e, st')"
  shows "call (Suc n) U f this (target # args) st = (Inl e, st')"
  using assms by (auto simp: freeFunction_def nullish_def bind_def throw_def)

lemma to_string_symbol: "to_string c (VSym s) st = (Inl TypeError, st)"
  by (simp add: to_string_def to_primitive_def is_object_def bind_def prim_to_string_def throw_def)

text \<open>
  Claim C3 at a target that is a symbol. The symbol has no binding for the trait
  \<^verbatim>\<open>add\<close> and no default is registered, yet the dispatch throws a \<^verbatim>\<open>TypeError\<close>, from
  the conversion of the target in the message, and not the error that names the trait
  and the target. On the object \<^verbatim>\<open>{value: 10}\<close> the same dispatch throws the error with
  the message
  \<^verbatim>\<open>.*add called on [object Object] that doesn't implement it.\<close>
\<close>

theorem no_implementation_symbol_target:
  "\<not> has_binding (after (asFreeFunction 1) realm) (VSym 1) 1
   \<and> defaultImpls (after (asFreeFunction 1) realm) 1 = None
   \<and> result (asFreeFunction 1) realm = Inr (VRef 15)
   \<and> result (call (Suc 1) U0 (VRef 15) VUndefined [VSym 1]) (after (asFreeFunction 1) realm)
       = Inl TypeError
   \<and> result (call (Suc 1) U0 (VRef 15) VUndefined [VRef 9]) (after (asFreeFunction 1) realm)
       = Inl (Error ''.*add called on [object Object] that doesn't implement it.'')"
  by code_simp

text \<open>
  Claim C10 at a target that is a symbol, when \<^verbatim>\<open>Symbol.prototype\<close> binds the trait to
  the falsy value 0 and no default is registered. The binding is not called; the pair
  is treated as unbound, but the error thrown is the \<^verbatim>\<open>TypeError\<close> of the conversion
  of the target in the message.
\<close>

theorem falsy_binding_symbol_target:
  "get_value (after (asFreeFunction 1) (after (impl 1 (VRef 5) (VNum 0)) realm)) (VSym 1) (KSym 1)
     = VNum 0
   \<and> defaultImpls (after (asFreeFunction 1) (after (impl 1 (VRef 5) (VNum 0)) realm)) 1 = None
   \<and> result (asFreeFunction 1) (after (impl 1 (VRef 5) (VNum 0)) realm) = Inr (VRef 15)
   \<and> result (call (Suc 1) U0 (VRef 15) VUndefined [VSym 1])
        (after (asFreeFunction 1) (after (impl 1 (VRef 5) (VNum 0)) realm))
       = Inl TypeError"
  by code_simp

text \<open>
  Claim C8 at the name \<^verbatim>\<open>hasOwnProperty\<close>, on an empty trait set. The first
  \<^verbatim>\<open>defineTrait\<close> succeeds; from then on \<^verbatim>\<open>this.hasOwnProperty\<close> is the new symbol,
  so the second \<^verbatim>\<open>defineTrait\<close> of that name, and of any other name, throws a
  \<^verbatim>\<open>TypeError\<close> (a symbol is not callable) instead of the assertion error. For the
  name \<^verbatim>\<open>greet\<close> the second definition throws the assertion error.
\<close>

theorem defineTrait_hasOwnProperty_twice:
  "result (defineTrait (call 2 U0) (VRef 8) ''hasOwnProperty'') realm = Inr (VSym 2)
   \<and> result (defineTrait (call 2 U0) (VRef 8) ''hasOwnProperty'')
        (after (defineTrait (call 2 U0) (VRef 8) ''hasOwnProperty'') realm) = Inl TypeError
   \<and> result (defineTrait (call 2 U0) (VRef 8) ''greet'')
        (after (defineTrait (call 2 U0) (VRef 8) ''hasOwnProperty'') realm) = Inl TypeError
   \<and> result (defineTrait (call 2 U0) (VRef 8) ''greet'')
        (after (defineTrait (call 2 U0) (VRef 8) ''greet'') realm)
       = Inl (AssertionError ''Trying to re-define trait `greet`'')"
  by code_simp








lemma assign_own_Inr:
  assumes "assign_own recv k v st = (Inr r, st')"
  obtains a ob ob' d where "recv = VRef a" and "obj_at (heap st) a = Some ob"
    and "define_own ob k d = Some ob'" and "d_value d = Some v"
    and "st' = st\<lparr>heap := (heap st)[a := ob']\<rparr>" and "r = v"
proof (cases recv)
  case (VRef a)
  show thesis
  proof (cases "obj_at (heap st) a")
    case None
    with assms VRef show thesis
      by (simp add: assign_own_def)
  next
    case ob: (Some ob)
    define d where "d = (case map_of (o_props ob) k of
        Some cur \<Rightarrow> \<lparr>d_value = Some v, d_writable = None,
                      d_enumerable = None, d_configurable = None\<rparr>
      | None \<Rightarrow> \<lparr>d_value = Some v, d_writable = Some True,
                   d_enumerable = Some True, d_configurable = Some True\<rparr>)"
    have dv: "d_value d = Some v"
      by (simp add: d_def split: option.splits)
    from assms VRef ob have "\<exists>ob'. define_own ob k d = Some ob'
        \<and> st' = st\<lparr>heap := (heap st)[a := ob']\<rparr> \<and> r = v"
      by (auto simp: assign_own_def d_def split: option.splits)
    then obtain ob' where "define_own ob k d = Some ob'"
      and "st' = st\<lparr>heap := (heap st)[a := ob']\<rparr>" and "r = v" by blast
    with VRef ob dv show thesis by (intro that)
  qed
qed (use assms in \<open>simp_all add: assign_own_def\<close>)

lemma set_prop_data:
  assumes "\<not> reaches_accessor st recv k" and "set_prop recv k v st = (Inr r, st')"
  shows "assign_own recv k v st = (Inr r, st')"
proof (cases "find_prop st recv k")
  case None
  with assms(2) show ?thesis by (simp add: set_prop_def split: if_splits)
next
  case (Some p)
  with assms(1) have "p_kind p = DataProperty"
    by (cases "p_kind p") (simp_all add: reaches_accessor_def)
  with Some assms(2) show ?thesis by (simp add: set_prop_def split: if_splits)
qed

lemma set_prop_Inr:
  assumes "set_prop recv k v st = (Inr r, st')" and "\<not> reaches_accessor st recv k"
  obtains a ob ob' d where "recv = VRef a" and "obj_at (heap st) a = Some ob"
    and "define_own ob k d = Some ob'" and "d_value d = Some v"
    and "st' = st\<lparr>heap := (heap st)[a := ob']\<rparr>" and "r = v"
  using set_prop_data[OF assms(2,1)] by (rule assign_own_Inr)

lemma set_prop_accessor:
  assumes "reaches_accessor st recv k" and "\<not> nullish recv" and "\<not> is_object v" and "v \<noteq> VNull"
  shows "set_prop recv k v st = (Inr v, st)"
proof -
  from assms(1) obtain p where "find_prop st recv k = Some p" and "p_kind p = ProtoAccessor"
    by (auto simp: reaches_accessor_def split: option.splits)
  with assms(2-4) show ?thesis by (simp add: set_prop_def proto_setter_def)
qed

lemma call_hasOwnProperty:
  assumes "function_code st h = Some HasOwnProperty" and "\<not> nullish this"
  shows "call (Suc n) U h this [VStr name] st
           = (Inr (VBool (own_prop st this (KStr name) \<noteq> None)), st)"
  using assms
  by (simp add: hasOwnProperty_def to_property_key_def to_primitive_def is_object_def
      bind_def ret_def prim_to_string_def)

lemma addSymbol_builtin:
  assumes "function_code st (get_value st this (KStr ''hasOwnProperty'')) = Some HasOwnProperty"
  shows "addSymbol (call (Suc n) U) this name v st =
     (if nullish this then (Inl TypeError, st)
      else if own_prop st this (KStr name) \<noteq> None
      then (Inl (AssertionError (''Trying to re-define trait `'' @ name @ ''`'')), st)
      else if \<not> is_symbol v
      then (Inl (AssertionError (''Trying to add `'' @ name @ ''`, but it's not a symbol'')), st)
      else set_prop this (KStr name) v st)"
proof (cases "nullish this")
  case True
  then show ?thesis by (simp add: addSymbol_def bind_def get_def)
next
  case False
  from call_hasOwnProperty[OF assms False, of n U name] False
  show ?thesis
    by (simp add: addSymbol_def bind_def get_def throw_def truthy_def del: call.simps)
qed

lemma chain_find_update:
  assumes "obj_at h b = Some ob" and "o_proto ob' = o_proto ob"
    and "map_of (o_props ob') k = Some p'" and "P p'"
  shows "chain_find n h a k = Some p \<Longrightarrow> P p
           \<Longrightarrow> \<exists>q. chain_find n (h[b := ob']) a k = Some q \<and> P q"
proof (induction n arbitrary: a)
  case 0
  then show ?case by simp
next
  case (Suc n)
  from Suc.prems(1) obtain oa where oa: "obj_at h a = Some oa"
    by (auto split: option.splits)
  show ?case
  proof (cases "a = b")
    case True
    with assms oa show ?thesis
      by (auto simp: obj_at_update dest: obj_at_Some_less)
  next
    case False
    then have same: "obj_at (h[b := ob']) a = Some oa"
      using oa by (simp add: obj_at_update)
    show ?thesis
    proof (cases "map_of (o_props oa) k")
      case (Some p0)
      with Suc.prems oa same show ?thesis by simp
    next
      case None
      with Suc.prems oa obtain a' where a': "o_proto oa = Some a'"
        and c: "chain_find n h a' k = Some p"
        by (auto split: option.splits)
      from Suc.IH[OF c Suc.prems(2)] None a' same show ?thesis by simp
    qed
  qed
qed

lemma find_prop_update:
  assumes "obj_at (heap st) b = Some ob" and "o_proto ob' = o_proto ob"
    and "map_of (o_props ob') k = Some p'" and "P p'"
    and "find_prop st v k = Some p" and "P p"
  shows "\<exists>q. find_prop (st\<lparr>heap := (heap st)[b := ob']\<rparr>) v k = Some q \<and> P q"
proof (cases "v = VRef b")
  case True
  from assms(1) have "b < length (heap st)" by (rule obj_at_Some_less)
  with True assms(3,4) show ?thesis
    by (simp add: find_prop_def own_prop_def obj_at_update)
next
  case False
  then have own: "own_prop (st\<lparr>heap := (heap st)[b := ob']\<rparr>) v k = own_prop st v k"
    by (cases v) (auto simp: own_prop_def obj_at_update)
  from False assms(1,2)
  have pr: "proto_of (st\<lparr>heap := (heap st)[b := ob']\<rparr>) v = proto_of st v"
    by (cases v) (auto simp: proto_of_def obj_at_update)
  show ?thesis
  proof (cases "own_prop st v k")
    case (Some p0)
    with assms(5,6) own show ?thesis by (simp add: find_prop_def)
  next
    case None
    with assms(5) obtain a where a: "proto_of st v = Some a"
      and c: "chain_find (length (heap st)) (heap st) a k = Some p"
      by (auto simp: find_prop_def split: option.splits)
    from chain_find_update[OF assms(1-4) c assms(6)] None own pr a
    show ?thesis by (simp add: find_prop_def)
  qed
qed

lemma get_value_find:
  "find_prop st v k = Some p \<Longrightarrow> p_kind p = DataProperty \<Longrightarrow> get_value st v k = p_value p"
  by (simp add: get_value_def)

lemma get_value_symbol_find:
  assumes "get_value st v k = VSym s"
  obtains p where "find_prop st v k = Some p" and "p_value p = VSym s"
    and "p_kind p = DataProperty"
  using assms
  by (auto simp: get_value_def proto_value_def split: option.splits kind.splits)

lemma get_Inr:
  assumes "get v k st = (Inr x, st')"
  shows "\<not> nullish v" and "x = get_value st v k" and "st' = st"
  using assms by (auto simp: get_def split: if_splits)

lemma ret_Inr:
  assumes "ret v st = (Inr x, st')"
  shows "x = v" and "st' = st"
  using assms by (simp_all add: ret_def)

lemma borrow_one_name:
  assumes "borrowTraits c B A (Some [t]) st = (Inr r, st')"
  obtains x where "\<not> nullish A" and "addSymbol c B t (get_value st A (KStr t)) st = (Inr x, st')"
    and "r = B"
proof -
  from assms have "bind (bind (bind (get A (KStr t)) (\<lambda>symb.
      bind (addSymbol c B t symb) (\<lambda>_. ret ()))) (\<lambda>_. ret ())) (\<lambda>_. ret B) st = (Inr r, st')"
    by (simp add: borrowTraits_def)
  then obtain u st1 where 1: "bind (bind (get A (KStr t)) (\<lambda>symb.
      bind (addSymbol c B t symb) (\<lambda>_. ret ()))) (\<lambda>_. ret ()) st = (Inr u, st1)"
    and r: "ret B st1 = (Inr r, st')" by (rule bind_eq_Inr)
  from 1 obtain u' st2 where 2: "bind (get A (KStr t)) (\<lambda>symb.
      bind (addSymbol c B t symb) (\<lambda>_. ret ())) st = (Inr u', st2)"
    and r2: "ret () st2 = (Inr u, st1)" by (rule bind_eq_Inr)
  from 2 obtain v st3 where g: "get A (KStr t) st = (Inr v, st3)"
    and 3: "bind (addSymbol c B t v) (\<lambda>_. ret ()) st3 = (Inr u', st2)" by (rule bind_eq_Inr)
  from 3 obtain x st4 where a: "addSymbol c B t v st3 = (Inr x, st4)"
    and r4: "ret () st4 = (Inr u', st2)" by (rule bind_eq_Inr)
  from get_Inr[OF g] ret_Inr[OF r] ret_Inr[OF r2] ret_Inr[OF r4] a
  show thesis by (intro that[of x]) simp_all
qed

lemma is_symbol_cases:
  assumes "is_symbol v" obtains s where "v = VSym s"
  using assms by (cases v) (simp_all add: is_symbol_def)

text \<open>
  Claim C7 says that after \<^verbatim>\<open>B.borrow(A, ["t"])\<close> the sets \<open>A\<close> and \<open>B\<close> hold one
  identifier under \<open>t\<close>. It fails for the name \<^verbatim>\<open>__proto__\<close>. The set \<open>A\<close> (address
  15) holds symbol 1 in an own property of that name, and \<open>B\<close> (address 8) is an empty
  set. The guard of \<^verbatim>\<open>addSymbol\<close> passes, as \<open>B\<close> has no own property \<^verbatim>\<open>__proto__\<close>,
  and the assignment \<^verbatim>\<open>this[name] = sym\<close> calls the setter that \<open>B\<close> inherits from
  \<^verbatim>\<open>Object.prototype\<close>, which ignores a symbol. So the borrow returns \<open>B\<close>, with no
  error; \<open>A\<close> holds symbol 1 as before; and \<open>B\<close> holds no identifier under the name:
  \<^verbatim>\<open>B['__proto__']\<close> is \<^verbatim>\<open>Object.prototype\<close> (address 0), \<open>B\<close> has no own property of
  that name, and the heap is what it was.
\<close>

theorem borrow_proto_name:
  "result (borrowTraits (call (Suc 1) U0) (VRef 8) (VRef 15) (Some [''__proto__''])) realm_proto
     = Inr (VRef 8)
   \<and> get_value realm_proto (VRef 15) (KStr ''__proto__'') = VSym 1
   \<and> get_value
        (after (borrowTraits (call (Suc 1) U0) (VRef 8) (VRef 15) (Some [''__proto__'']))
           realm_proto) (VRef 15) (KStr ''__proto__'') = VSym 1
   \<and> get_value
        (after (borrowTraits (call (Suc 1) U0) (VRef 8) (VRef 15) (Some [''__proto__'']))
           realm_proto) (VRef 8) (KStr ''__proto__'') = VRef Object_prototype
   \<and> own_prop
        (after (borrowTraits (call (Suc 1) U0) (VRef 8) (VRef 15) (Some [''__proto__'']))
           realm_proto) (VRef 8) (KStr ''__proto__'') = None
   \<and> heap (after (borrowTraits (call (Suc 1) U0) (VRef 8) (VRef 15) (Some [''__proto__'']))
             realm_proto) = heap realm_proto"
  by code_simp

text \<open>
  For every name whose assignment stores a property (the property that \<open>B\<close> has under
  \<open>t\<close>, if any, is not the accessor), borrowing preserves the identity. When
  \<^verbatim>\<open>B.borrow(A, ["t"])\<close> has returned, there is one identifier that \<open>A\<close> holds under
  \<open>t\<close>, before and after, and that \<open>B\<close> holds under \<open>t\<close> afterwards; no symbol has been
  created. So an implementation attached to a target under the identifier of one set
  is what the callable derived from the identifier of the other set dispatches to.
  (\<open>B\<close> is a trait set whose \<^verbatim>\<open>hasOwnProperty\<close> is the built-in one.)
\<close>

theorem borrow_preserves_identity:
  assumes "borrowTraits (call (Suc n) U) B A (Some [t]) st = (Inr r, st')"
    and "builtin_hasOwnProperty st B"
    and "\<not> reaches_accessor st B (KStr t)"
  shows "\<exists>s. get_value st A (KStr t) = VSym s
           \<and> get_value st' A (KStr t) = VSym s
           \<and> get_value st' B (KStr t) = VSym s
           \<and> symbols st' = symbols st
           \<and> (\<forall>target fn r1 st1 f st2 m this args.
                 impl s target fn st' = (Inr r1, st1) \<longrightarrow>
                 asFreeFunction s st1 = (Inr f, st2) \<longrightarrow>
                 truthy fn \<longrightarrow>
                 call (Suc m) U f this (target # args) st2 = call m U fn target args st2)"
proof -
  from assms(1) obtain x where
    add: "addSymbol (call (Suc n) U) B t (get_value st A (KStr t)) st = (Inr x, st')"
    by (rule borrow_one_name)
  from add have sym: "is_symbol (get_value st A (KStr t))"
    and set: "set_prop B (KStr t) (get_value st A (KStr t)) st = (Inr x, st')"
    unfolding addSymbol_builtin[OF assms(2)[unfolded builtin_hasOwnProperty_def]]
    by (simp_all split: if_splits)
  from sym obtain s where s: "get_value st A (KStr t) = VSym s" by (rule is_symbol_cases)
  from set assms(3) obtain b ob ob' d where B: "B = VRef b" and ob: "obj_at (heap st) b = Some ob"
    and d: "define_own ob (KStr t) d = Some ob'" and dv: "d_value d = Some (get_value st A (KStr t))"
    and st': "st' = st\<lparr>heap := (heap st)[b := ob']\<rparr>"
    by (rule set_prop_Inr)
  from define_own_value[OF d dv] s obtain p' where
    p': "map_of (o_props ob') (KStr t) = Some p'"
        "p_value p' = VSym s \<and> p_kind p' = DataProperty" by auto
  from ob have less: "b < length (heap st)" by (rule obj_at_Some_less)
  from p' less have "own_prop st' B (KStr t) = Some p'"
    unfolding B st' by (simp add: own_prop_def obj_at_update)
  with p'(2) have gB: "get_value st' B (KStr t) = VSym s"
    by (simp add: get_value_own)
  from s obtain p where p: "find_prop st A (KStr t) = Some p"
    "p_value p = VSym s \<and> p_kind p = DataProperty"
    by (rule get_value_symbol_find) simp
  from find_prop_update[where P = "\<lambda>p. p_value p = VSym s \<and> p_kind p = DataProperty",
      OF ob define_own_frame(1)[OF d] p' p]
  have gA: "get_value st' A (KStr t) = VSym s"
    unfolding st' by (auto simp: get_value_find)
  have syms: "symbols st' = symbols st" unfolding st' by simp
  have "\<forall>target fn r1 st1 f st2 m this args.
          impl s target fn st' = (Inr r1, st1) \<longrightarrow>
          asFreeFunction s st1 = (Inr f, st2) \<longrightarrow>
          truthy fn \<longrightarrow>
          call (Suc m) U f this (target # args) st2 = call m U fn target args st2"
    by (intro allI impI) (rule free_call_after_impl)
  then show ?thesis
    by (intro exI[of _ s] conjI s gA gB syms)
qed

lemma own_prop_heap_cong: "heap st' = heap st \<Longrightarrow> own_prop st' v k = own_prop st v k"
  by (cases v) (simp_all add: own_prop_def)

lemma proto_of_heap_cong: "heap st' = heap st \<Longrightarrow> proto_of st' v = proto_of st v"
  by (cases v) (simp_all add: proto_of_def)

lemma find_prop_heap_cong: "heap st' = heap st \<Longrightarrow> find_prop st' v k = find_prop st v k"
  by (simp add: find_prop_def own_prop_heap_cong[of st' st] proto_of_heap_cong[of st' st]
      split: option.splits)

lemma get_value_heap_cong: "heap st' = heap st \<Longrightarrow> get_value st' v k = get_value st v k"
  by (simp add: get_value_def proto_value_def find_prop_heap_cong[of st' st]
      proto_of_heap_cong[of st' st] split: option.splits kind.splits)

lemma function_code_heap_cong:
  "heap st' = heap st \<Longrightarrow> function_code st' v = function_code st v"
  by (cases v) (simp_all add: function_code_def)

lemma get_value_symbols_update [simp]:
  "get_value (st\<lparr>symbols := x\<rparr>) v k = get_value st v k"
  by (rule get_value_heap_cong) simp

lemma function_code_symbols_update [simp]:
  "function_code (st\<lparr>symbols := x\<rparr>) v = function_code st v"
  by (rule function_code_heap_cong) simp

lemma own_prop_symbols_update [simp]:
  "own_prop (st\<lparr>symbols := x\<rparr>) v k = own_prop st v k"
  by (rule own_prop_heap_cong) simp

lemma reaches_accessor_symbols_update [simp]:
  "reaches_accessor (st\<lparr>symbols := x\<rparr>) v k = reaches_accessor st v k"
  by (simp add: reaches_accessor_def find_prop_heap_cong[of "st\<lparr>symbols := x\<rparr>" st])

lemma defineTrait_new_symbol:
  "defineTrait c this name st
     = addSymbol c this name (VSym (length (symbols st)))
         (st\<lparr>symbols := symbols st @ [Some name]\<rparr>)"
  by (simp add: defineTrait_def new_symbol_def)

lemma addSymbol_own_after:
  assumes "addSymbol (call (Suc n) U) this name v st = (Inr r, st')"
    and "function_code st (get_value st this (KStr ''hasOwnProperty'')) = Some HasOwnProperty"
    and "\<not> reaches_accessor st this (KStr name)"
  obtains p where "own_prop st' this (KStr name) = Some p" and "p_value p = v" and "r = v"
    and "own_prop st this (KStr name) = None" and "is_symbol v"
proof -
  from assms(1) have sym: "is_symbol v" and none: "own_prop st this (KStr name) = None"
    and set: "set_prop this (KStr name) v st = (Inr r, st')"
    unfolding addSymbol_builtin[OF assms(2)] by (simp_all split: if_splits)
  from set assms(3) obtain b ob ob' d where B: "this = VRef b"
    and ob: "obj_at (heap st) b = Some ob"
    and d: "define_own ob (KStr name) d = Some ob'" and dv: "d_value d = Some v"
    and st': "st' = st\<lparr>heap := (heap st)[b := ob']\<rparr>" and r: "r = v"
    by (rule set_prop_Inr)
  from define_own_value[OF d dv] obtain p' where
    p': "map_of (o_props ob') (KStr name) = Some p'" "p_value p' = v" by auto
  from ob have less: "b < length (heap st)" by (rule obj_at_Some_less)
  from p' less have "own_prop st' this (KStr name) = Some p'"
    unfolding B st' by (simp add: own_prop_def obj_at_update)
  then show thesis using p'(2) r none sym by (rule that)
qed

text \<open>
  The duplicate guard where it works: when the first \<^verbatim>\<open>defineTrait\<close> has returned,
  \<^verbatim>\<open>hasOwnProperty\<close> is the built-in function before and after it, and the
  assignment of the name stores a property, the second \<^verbatim>\<open>defineTrait\<close> of the name
  throws the assertion error.
\<close>

lemma defineTrait_twice:
  assumes "defineTrait (call (Suc n) U) S t st = (Inr r, st1)"
    and "function_code st (get_value st S (KStr ''hasOwnProperty'')) = Some HasOwnProperty"
    and "function_code st1 (get_value st1 S (KStr ''hasOwnProperty'')) = Some HasOwnProperty"
    and "\<not> reaches_accessor st S (KStr t)"
  shows "defineTrait (call (Suc n) U) S t st1
           = (Inl (AssertionError (''Trying to re-define trait `'' @ t @ ''`'')),
              st1\<lparr>symbols := symbols st1 @ [Some t]\<rparr>)"
proof -
  from assms(1) have
    "addSymbol (call (Suc n) U) S t (VSym (length (symbols st)))
       (st\<lparr>symbols := symbols st @ [Some t]\<rparr>) = (Inr r, st1)"
    by (simp only: defineTrait_new_symbol)
  then obtain p where "own_prop st1 S (KStr t) = Some p"
    by (rule addSymbol_own_after) (simp_all add: assms(2,4))
  moreover then have "\<not> nullish S"
    by (auto simp: own_prop_def nullish_def)
  moreover have "function_code (st1\<lparr>symbols := symbols st1 @ [Some t]\<rparr>)
      (get_value (st1\<lparr>symbols := symbols st1 @ [Some t]\<rparr>) S (KStr ''hasOwnProperty''))
        = Some HasOwnProperty"
    using assms(3) by simp
  ultimately show ?thesis
    unfolding defineTrait_new_symbol
    by (simp only: addSymbol_builtin own_prop_symbols_update) simp
qed

lemma agree_on_iff:
  "agree_on h h' k \<longleftrightarrow>
     length h \<le> length h' \<and>
     (\<forall>a<length h. map_of (o_props (h' ! a)) k = map_of (o_props (h ! a)) k
                    \<and> o_proto (h' ! a) = o_proto (h ! a)
                    \<and> o_code (h' ! a) = o_code (h ! a))"
  by (auto simp: agree_on_def list_all_iff)

lemma agree_on_refl: "agree_on h h k"
  by (simp add: agree_on_iff)

lemma agree_on_trans: "agree_on h h' k \<Longrightarrow> agree_on h' h'' k \<Longrightarrow> agree_on h h'' k"
  by (auto simp: agree_on_iff)

lemma agree_on_append: "agree_on h (h @ hs) k"
  by (simp add: agree_on_iff nth_append)

lemma agree_on_define_own:
  assumes "obj_at h a = Some ob" and "define_own ob k' d = Some ob'" and "k \<noteq> k'"
  shows "agree_on h (h[a := ob']) k"
proof -
  from assms(1) have a: "a < length h" and ob: "h ! a = ob"
    by (auto simp: obj_at_def split: if_splits)
  from define_own_other[OF assms(2,3)] define_own_frame[OF assms(2)] a ob
  show ?thesis
    by (auto simp: agree_on_iff nth_list_update)
qed

lemma agree_on_obj_at:
  assumes "agree_on h h' k" and "obj_at h a = Some ob"
  obtains ob' where "obj_at h' a = Some ob'" and "map_of (o_props ob') k = map_of (o_props ob) k"
    and "o_proto ob' = o_proto ob" and "o_code ob' = o_code ob"
  using assms by (auto simp: agree_on_iff obj_at_def split: if_splits)

lemma chain_find_agree:
  assumes "agree_on h h' k"
  shows "chain_find n h a k = Some p \<Longrightarrow> n \<le> n' \<Longrightarrow> chain_find n' h' a k = Some p"
proof (induction n arbitrary: a n')
  case 0
  then show ?case by simp
next
  case (Suc n)
  from Suc.prems(2) obtain m where n': "n' = Suc m" and le: "n \<le> m"
    by (cases n') simp_all
  from Suc.prems(1) obtain ob where ob: "obj_at h a = Some ob"
    by (auto split: option.splits)
  from assms ob obtain ob' where ob': "obj_at h' a = Some ob'"
    and same: "map_of (o_props ob') k = map_of (o_props ob) k" "o_proto ob' = o_proto ob"
    by (rule agree_on_obj_at)
  show ?case
  proof (cases "map_of (o_props ob) k")
    case (Some p0)
    with Suc.prems(1) ob ob' same show ?thesis by (simp add: n')
  next
    case None
    with Suc.prems(1) ob obtain a' where a': "o_proto ob = Some a'"
      and c: "chain_find n h a' k = Some p"
      by (auto split: option.splits)
    from Suc.IH[OF c le] None a' ob' same show ?thesis by (simp add: n')
  qed
qed

lemma own_prop_agree:
  assumes "agree_on (heap st) (heap st') k" and "own_prop st v k = Some p"
  shows "own_prop st' v k = Some p"
proof (cases v)
  case (VRef a)
  with assms(2) obtain ob where ob: "obj_at (heap st) a = Some ob"
    and p: "map_of (o_props ob) k = Some p"
    by (auto simp: own_prop_def split: option.splits)
  from assms(1) ob obtain ob' where "obj_at (heap st') a = Some ob'"
    and "map_of (o_props ob') k = map_of (o_props ob) k"
    by (rule agree_on_obj_at)
  with p VRef show ?thesis by (simp add: own_prop_def)
qed (use assms(2) in \<open>simp_all add: own_prop_def\<close>)

lemma function_code_agree:
  assumes "agree_on (heap st) (heap st') k" and "function_code st v = Some c"
  shows "function_code st' v = Some c"
proof (cases v)
  case (VRef a)
  with assms(2) obtain ob where ob: "obj_at (heap st) a = Some ob" and c: "o_code ob = Some c"
    by (auto simp: function_code_def split: option.splits)
  from assms(1) ob obtain ob' where "obj_at (heap st') a = Some ob'" and "o_code ob' = o_code ob"
    by (rule agree_on_obj_at)
  with c VRef show ?thesis by (simp add: function_code_def)
qed (use assms(2) in \<open>simp_all add: function_code_def\<close>)

lemma find_prop_agree:
  assumes "agree_on (heap st) (heap st') k" and "find_prop st v k = Some p"
  shows "find_prop st' v k = Some p"
proof (cases "own_prop st v k")
  case (Some p0)
  with assms(2) have "p0 = p" by (simp add: find_prop_def)
  with own_prop_agree[OF assms(1) Some] show ?thesis by (simp add: find_prop_def)
next
  case None
  with assms(2) obtain a where a: "proto_of st v = Some a"
    and c: "chain_find (length (heap st)) (heap st) a k = Some p"
    by (auto simp: find_prop_def split: option.splits)
  from assms(1) have le: "length (heap st) \<le> length (heap st')"
    by (simp add: agree_on_iff)
  have own': "own_prop st' v k = None" and pr': "proto_of st' v = Some a"
  proof -
    show "own_prop st' v k = None"
    proof (cases v)
      case (VRef b)
      with a obtain ob where ob: "obj_at (heap st) b = Some ob"
        by (auto simp: proto_of_def split: option.splits)
      from assms(1) ob obtain ob' where "obj_at (heap st') b = Some ob'"
        and "map_of (o_props ob') k = map_of (o_props ob) k"
        by (rule agree_on_obj_at)
      with None ob VRef show ?thesis by (simp add: own_prop_def)
    qed (use None in \<open>simp_all add: own_prop_def\<close>)
    show "proto_of st' v = Some a"
    proof (cases v)
      case (VRef b)
      with a obtain ob where ob: "obj_at (heap st) b = Some ob" and pa: "o_proto ob = Some a"
        by (auto simp: proto_of_def split: option.splits)
      from assms(1) ob obtain ob' where "obj_at (heap st') b = Some ob'"
        and "o_proto ob' = o_proto ob"
        by (rule agree_on_obj_at)
      with pa VRef show ?thesis by (simp add: proto_of_def)
    qed (use a in \<open>simp_all add: proto_of_def\<close>)
  qed
  from chain_find_agree[OF assms(1) c le] own' pr' show ?thesis
    by (simp add: find_prop_def)
qed

lemma proto_of_agree:
  assumes "agree_on (heap st) (heap st') k" and "find_prop st v k = Some p"
  shows "proto_of st' v = proto_of st v"
proof (cases v)
  case (VRef a)
  from assms(2) VRef obtain ob where ob: "obj_at (heap st) a = Some ob"
    by (cases "obj_at (heap st) a") (simp_all add: find_prop_def own_prop_def proto_of_def)
  from assms(1) ob obtain ob' where "obj_at (heap st') a = Some ob'"
    and "o_proto ob' = o_proto ob"
    by (rule agree_on_obj_at)
  with ob VRef show ?thesis by (simp add: proto_of_def)
qed (simp_all add: proto_of_def)

lemma get_value_agree:
  assumes "agree_on (heap st) (heap st') k" and "find_prop st v k = Some p"
  shows "get_value st' v k = get_value st v k"
  using find_prop_agree[OF assms] proto_of_agree[OF assms] assms(2)
  by (simp add: get_value_def proto_value_def split: kind.splits)

lemma reaches_accessor_agree:
  assumes "agree_on (heap st) (heap st') k" and "reaches_accessor st v k"
  shows "reaches_accessor st' v k"
proof -
  from assms(2) obtain p where p: "find_prop st v k = Some p" and "p_kind p = ProtoAccessor"
    by (auto simp: reaches_accessor_def split: option.splits)
  with find_prop_agree[OF assms(1) p] show ?thesis by (simp add: reaches_accessor_def)
qed

lemma builtin_agree:
  assumes "builtin_hasOwnProperty st S"
    and "agree_on (heap st) (heap st') (KStr ''hasOwnProperty'')"
  shows "builtin_hasOwnProperty st' S"
proof -
  from assms(1) obtain p where p: "find_prop st S (KStr ''hasOwnProperty'') = Some p"
    by (auto simp: builtin_hasOwnProperty_def get_value_def function_code_def
        split: option.splits)
  from get_value_agree[OF assms(2) p]
  have "get_value st' S (KStr ''hasOwnProperty'') = get_value st S (KStr ''hasOwnProperty'')" .
  with assms(1) function_code_agree[OF assms(2)] show ?thesis
    by (simp add: builtin_hasOwnProperty_def)
qed

lemma step_Inr:
  assumes "defineAndImplMethodsAsTraits_step c S target source x st = (Inr u, st1)"
  obtains s sta w stb r where "defineTrait c S x st = (Inr (VSym s), sta)"
    and "new_function (MethodWrapper source x) x 0 False sta = (Inr w, stb)"
    and "impl s target w stb = (Inr r, st1)"
proof -
  from assms obtain v sta where d: "defineTrait c S x st = (Inr v, sta)"
    and rest: "(case v of
        VSym s \<Rightarrow>
          bind (new_function (MethodWrapper source x) x 0 False) (\<lambda>w.
            bind (impl s target w) (\<lambda>_. ret ()))
      | _ \<Rightarrow> throw TypeError) sta = (Inr u, st1)"
    unfolding defineAndImplMethodsAsTraits_step_def by (rule bind_eq_Inr)
  from rest obtain s where v: "v = VSym s"
    by (cases v) (simp_all add: throw_def)
  from rest v have "bind (new_function (MethodWrapper source x) x 0 False) (\<lambda>w.
            bind (impl s target w) (\<lambda>_. ret ())) sta = (Inr u, st1)" by simp
  then obtain w stb where nf: "new_function (MethodWrapper source x) x 0 False sta = (Inr w, stb)"
    and i: "bind (impl s target w) (\<lambda>_. ret ()) stb = (Inr u, st1)" by (rule bind_eq_Inr)
  from i obtain r st1' where i': "impl s target w stb = (Inr r, st1')"
    and "ret () st1' = (Inr u, st1)" by (rule bind_eq_Inr)
  then have "impl s target w stb = (Inr r, st1)" by (simp add: ret_def)
  with d v nf show thesis by (intro that) simp_all
qed

lemma defineTrait_builtin_Inr:
  assumes "defineTrait (call (Suc n) U) S x st = (Inr v, sta)"
    and "builtin_hasOwnProperty st S"
    and "\<not> reaches_accessor st S (KStr x)"
  obtains p where "v = VSym (length (symbols st))"
    and "symbols sta = symbols st @ [Some x]"
    and "own_prop sta S (KStr x) = Some p" and "p_value p = VSym (length (symbols st))"
    and "p_kind p = DataProperty"
    and "\<forall>k. k \<noteq> KStr x \<longrightarrow> agree_on (heap st) (heap sta) k"
proof -
  let ?base = "st\<lparr>symbols := symbols st @ [Some x]\<rparr>"
  let ?v = "VSym (length (symbols st))"
  have b0: "function_code ?base (get_value ?base S (KStr ''hasOwnProperty'')) = Some HasOwnProperty"
    using assms(2) by (simp add: builtin_hasOwnProperty_def)
  have na: "\<not> reaches_accessor ?base S (KStr x)" using assms(3) by simp
  from assms(1) have add: "addSymbol (call (Suc n) U) S x ?v ?base = (Inr v, sta)"
    by (simp only: defineTrait_new_symbol)
  from add have set: "set_prop S (KStr x) ?v ?base = (Inr v, sta)"
    unfolding addSymbol_builtin[OF b0] by (simp split: if_splits)
  from set na obtain b ob ob' d where S: "S = VRef b" and ob: "obj_at (heap ?base) b = Some ob"
    and d: "define_own ob (KStr x) d = Some ob'" and dv: "d_value d = Some ?v"
    and sta: "sta = ?base\<lparr>heap := (heap ?base)[b := ob']\<rparr>" and v: "v = ?v"
    by (rule set_prop_Inr)
  from define_own_value[OF d dv] obtain p where
    p: "map_of (o_props ob') (KStr x) = Some p" "p_value p = ?v" "p_kind p = DataProperty"
    by auto
  from ob have ob1: "obj_at (heap st) b = Some ob" by simp
  then have less: "b < length (heap st)" by (rule obj_at_Some_less)
  have own: "own_prop sta S (KStr x) = Some p"
    unfolding S sta using p(1) less by (simp add: own_prop_def obj_at_update)
  have syms: "symbols sta = symbols st @ [Some x]" unfolding sta by simp
  have agree: "agree_on (heap st) (heap sta) k" if "k \<noteq> KStr x" for k
    unfolding sta using agree_on_define_own[OF ob1 d that] by simp
  from agree have "\<forall>k. k \<noteq> KStr x \<longrightarrow> agree_on (heap st) (heap sta) k" by blast
  with v syms own p(2,3) show thesis by (rule that)
qed

lemma defineTrait_accessor_Inr:
  assumes "defineTrait (call (Suc n) U) S x st = (Inr v, sta)"
    and "builtin_hasOwnProperty st S"
    and "reaches_accessor st S (KStr x)"
  shows "v = VSym (length (symbols st))" and "sta = st\<lparr>symbols := symbols st @ [Some x]\<rparr>"
proof -
  let ?base = "st\<lparr>symbols := symbols st @ [Some x]\<rparr>"
  let ?v = "VSym (length (symbols st))"
  have b0: "function_code ?base (get_value ?base S (KStr ''hasOwnProperty'')) = Some HasOwnProperty"
    using assms(2) by (simp add: builtin_hasOwnProperty_def)
  have ra: "reaches_accessor ?base S (KStr x)" using assms(3) by simp
  from assms(1) have add: "addSymbol (call (Suc n) U) S x ?v ?base = (Inr v, sta)"
    by (simp only: defineTrait_new_symbol)
  from add have nn: "\<not> nullish S" and set: "set_prop S (KStr x) ?v ?base = (Inr v, sta)"
    unfolding addSymbol_builtin[OF b0] by (simp_all split: if_splits)
  have "set_prop S (KStr x) ?v ?base = (Inr ?v, ?base)"
    by (rule set_prop_accessor[OF ra nn]) (simp_all add: is_object_def)
  with set show "v = VSym (length (symbols st))"
    and "sta = st\<lparr>symbols := symbols st @ [Some x]\<rparr>" by simp_all
qed

lemma new_function_plain:
  "new_function c name len False st
     = (Inr (VRef (length (heap st))),
        st\<lparr>heap := heap st @
          [\<lparr>o_props =
              [(KStr ''length'', \<lparr>p_value = VNum len, p_writable = False,
                                   p_enumerable = False, p_configurable = True,
                                   p_kind = DataProperty\<rparr>),
               (KStr ''name'', \<lparr>p_value = VStr name, p_writable = False,
                                 p_enumerable = False, p_configurable = True,
                                 p_kind = DataProperty\<rparr>)],
            o_proto = Some Function_prototype, o_extensible = True, o_code = Some c\<rparr>]\<rparr>)"
  by (simp add: new_function_def Let_def)

lemma new_function_Inr:
  assumes "new_function c name len b st = (Inr w, st')"
  shows "function_code st' w = Some c" and "agree_on (heap st) (heap st') k"
    and "symbols st' = symbols st"
proof -
  obtain ob hs where nf:
    "new_function c name len b st = (Inr (VRef (length (heap st))), st\<lparr>heap := heap st @ ob # hs\<rparr>)"
    and c: "o_code ob = Some c"
    by (rule new_function_cases)
  from nf assms have w: "w = VRef (length (heap st))"
    and st': "st' = st\<lparr>heap := heap st @ ob # hs\<rparr>" by simp_all
  show "function_code st' w = Some c" unfolding w st' using c by (simp add: function_code_alloc)
  show "agree_on (heap st) (heap st') k" unfolding st' by (simp add: agree_on_append)
  show "symbols st' = symbols st" unfolding st' by simp
qed

lemma impl_agree:
  assumes "impl s target fn st = (Inr r, st')"
  shows "k \<noteq> KSym s \<Longrightarrow> agree_on (heap st) (heap st') k" and "symbols st' = symbols st"
proof -
  from assms obtain a ob ob' where ob: "obj_at (heap st) a = Some ob"
    and d: "define_own ob (KSym s)
           \<lparr>d_value = Some fn, d_writable = None, d_enumerable = None,
            d_configurable = Some True\<rparr> = Some ob'"
    and st': "st' = st\<lparr>heap := (heap st)[a := ob']\<rparr>"
    by (rule impl_Inr)
  show "agree_on (heap st) (heap st') k" if "k \<noteq> KSym s"
    unfolding st' using agree_on_define_own[OF ob d that] by simp
  show "symbols st' = symbols st" unfolding st' by simp
qed

lemma step_effects:
  assumes "defineAndImplMethodsAsTraits_step (call (Suc n) U) S target source x st = (Inr u, st1)"
    and "builtin_hasOwnProperty st S"
  obtains q where "symbols st1 = symbols st @ [Some x]"
    and "own_prop st1 target (KSym (length (symbols st))) = Some q"
    and "p_kind q = DataProperty"
    and "function_code st1 (p_value q) = Some (MethodWrapper source x)"
    and "\<forall>k. k \<noteq> KStr x \<longrightarrow> k \<noteq> KSym (length (symbols st))
            \<longrightarrow> agree_on (heap st) (heap st1) k"
    and "if reaches_accessor st S (KStr x)
         then agree_on (heap st) (heap st1) (KStr x)
         else (\<exists>p. own_prop st1 S (KStr x) = Some p \<and> p_value p = VSym (length (symbols st))
                     \<and> p_kind p = DataProperty)"
proof -
  from assms(1) obtain s sta w stb r where
    d: "defineTrait (call (Suc n) U) S x st = (Inr (VSym s), sta)"
    and nf: "new_function (MethodWrapper source x) x 0 False sta = (Inr w, stb)"
    and i: "impl s target w stb = (Inr r, st1)"
    by (rule step_Inr)
  note nfs = new_function_Inr[OF nf]
  note ia = impl_agree[OF i]
  have ag2: "agree_on (heap sta) (heap st1) k" if "k \<noteq> KSym s" for k
    using agree_on_trans[OF nfs(2) ia(1)[OF that]] .
  have "s = length (symbols st) \<and> symbols sta = symbols st @ [Some x]
      \<and> (\<forall>k. k \<noteq> KStr x \<longrightarrow> agree_on (heap st) (heap sta) k)
      \<and> (if reaches_accessor st S (KStr x)
         then agree_on (heap st) (heap sta) (KStr x)
         else (\<exists>p. own_prop sta S (KStr x) = Some p \<and> p_value p = VSym (length (symbols st))
                     \<and> p_kind p = DataProperty))"
  proof (cases "reaches_accessor st S (KStr x)")
    case True
    from defineTrait_accessor_Inr[OF d assms(2) True]
    have "s = length (symbols st)" and sta: "sta = st\<lparr>symbols := symbols st @ [Some x]\<rparr>"
      by simp_all
    moreover from sta have "agree_on (heap st) (heap sta) k" for k
      by (simp add: agree_on_refl)
    ultimately show ?thesis using True by simp
  next
    case False
    from d assms(2) False obtain p where "VSym s = VSym (length (symbols st))"
      and "symbols sta = symbols st @ [Some x]"
      and "own_prop sta S (KStr x) = Some p" and "p_value p = VSym (length (symbols st))"
      and "p_kind p = DataProperty"
      and "\<forall>k. k \<noteq> KStr x \<longrightarrow> agree_on (heap st) (heap sta) k"
      by (rule defineTrait_builtin_Inr)
    with False show ?thesis by auto
  qed
  then have s': "s = length (symbols st)" and syms: "symbols sta = symbols st @ [Some x]"
    and ag1': "\<forall>k. k \<noteq> KStr x \<longrightarrow> agree_on (heap st) (heap sta) k"
    and alt: "if reaches_accessor st S (KStr x)
         then agree_on (heap st) (heap sta) (KStr x)
         else (\<exists>p. own_prop sta S (KStr x) = Some p \<and> p_value p = VSym (length (symbols st))
                     \<and> p_kind p = DataProperty)"
    by blast+
  from ag1' have ag1: "agree_on (heap st) (heap sta) k" if "k \<noteq> KStr x" for k
    using that by blast
  have 1: "symbols st1 = symbols st @ [Some x]"
    using syms nfs(3) ia(2) by simp
  from i obtain q where q: "own_prop st1 target (KSym s) = Some q" and qv: "p_value q = w"
    and qk: "p_kind q = DataProperty"
    by (rule impl_own_prop)
  have 3: "function_code st1 (p_value q) = Some (MethodWrapper source x)"
    unfolding qv by (rule function_code_agree[OF ia(1)[of "KStr x"] nfs(1)]) simp
  have 4: "agree_on (heap st) (heap st1) k"
    if "k \<noteq> KStr x" and "k \<noteq> KSym (length (symbols st))" for k
    using agree_on_trans[OF ag1[OF that(1)] ag2] that(2) s' by simp
  from 4 have all4: "\<forall>k. k \<noteq> KStr x \<longrightarrow> k \<noteq> KSym (length (symbols st))
            \<longrightarrow> agree_on (heap st) (heap st1) k" by blast
  have 5: "if reaches_accessor st S (KStr x)
         then agree_on (heap st) (heap st1) (KStr x)
         else (\<exists>p. own_prop st1 S (KStr x) = Some p \<and> p_value p = VSym (length (symbols st))
                     \<and> p_kind p = DataProperty)"
  proof (cases "reaches_accessor st S (KStr x)")
    case True
    with alt have "agree_on (heap st) (heap sta) (KStr x)" by simp
    from agree_on_trans[OF this ag2] True show ?thesis by simp
  next
    case False
    with alt obtain p where "own_prop sta S (KStr x) = Some p"
      and pv: "p_value p = VSym (length (symbols st))" "p_kind p = DataProperty" by auto
    from own_prop_agree[OF ag2 this(1)] have "own_prop st1 S (KStr x) = Some p" by simp
    with pv False show ?thesis by auto
  qed
  from 1 q[unfolded s'] qk 3 all4 5 show thesis by (rule that)
qed

lemma addSymbol_not_callable:
  assumes "function_code st (get_value st S (KStr ''hasOwnProperty'')) = None"
  shows "addSymbol (call (Suc n) U) S name v st = (Inl TypeError, st)"
  using assms by (simp add: addSymbol_def bind_def get_def)

lemma step_not_callable:
  assumes "function_code st (get_value st S (KStr ''hasOwnProperty'')) = None"
  shows "defineAndImplMethodsAsTraits_step (call (Suc n) U) S target source y st
           = (Inl TypeError, st\<lparr>symbols := symbols st @ [Some y]\<rparr>)"
proof -
  let ?base = "st\<lparr>symbols := symbols st @ [Some y]\<rparr>"
  have "function_code ?base (get_value ?base S (KStr ''hasOwnProperty'')) = None"
    using assms by simp
  from addSymbol_not_callable[OF this]
  show ?thesis
    by (simp add: defineAndImplMethodsAsTraits_step_def bind_def defineTrait_new_symbol
        del: call.simps)
qed

lemma for_each_Cons_Inr:
  assumes "for_each (x # xs) f st = (Inr u, st')"
  obtains u1 st1 where "f x st = (Inr u1, st1)" and "for_each xs f st1 = (Inr u, st')"
proof -
  from assms have "bind (f x) (\<lambda>_. for_each xs f) st = (Inr u, st')" by simp
  then show thesis by (rule bind_eq_Inr) (rule that)
qed

lemma next_builtin:
  assumes "defineAndImplMethodsAsTraits_step (call (Suc n) U) S target source x st = (Inr u, st1)"
    and "builtin_hasOwnProperty st S"
    and "for_each (y # ys) (defineAndImplMethodsAsTraits_step (call (Suc n) U) S target source) st1
           = (Inr u', st')"
  shows "builtin_hasOwnProperty st1 S"
proof -
  from assms(1,2) obtain q where
    ag: "\<forall>k. k \<noteq> KStr x \<longrightarrow> k \<noteq> KSym (length (symbols st))
            \<longrightarrow> agree_on (heap st) (heap st1) k"
    and alt: "if reaches_accessor st S (KStr x)
         then agree_on (heap st) (heap st1) (KStr x)
         else (\<exists>p. own_prop st1 S (KStr x) = Some p \<and> p_value p = VSym (length (symbols st))
                     \<and> p_kind p = DataProperty)"
    by (rule step_effects)
  show ?thesis
  proof (cases "x = ''hasOwnProperty'' \<and> \<not> reaches_accessor st S (KStr x)")
    case True
    with alt obtain p where "own_prop st1 S (KStr ''hasOwnProperty'') = Some p"
      and "p_value p = VSym (length (symbols st))" and "p_kind p = DataProperty"
      by auto
    then have "get_value st1 S (KStr ''hasOwnProperty'') = VSym (length (symbols st))"
      by (simp add: get_value_own)
    then have "function_code st1 (get_value st1 S (KStr ''hasOwnProperty'')) = None"
      by (simp add: function_code_def)
    from step_not_callable[OF this, of n U target source y] assms(3)
    show ?thesis by (simp add: bind_def del: call.simps)
  next
    case False
    with ag alt have "agree_on (heap st) (heap st1) (KStr ''hasOwnProperty'')"
      by (cases "x = ''hasOwnProperty''") simp_all
    with assms(2) show ?thesis by (rule builtin_agree)
  qed
qed

lemma loop_agree:
  assumes "\<forall>x\<in>set xs. key \<noteq> KStr x" and "\<forall>s. key = KSym s \<longrightarrow> s < length (symbols st)"
  shows "for_each xs (defineAndImplMethodsAsTraits_step (call (Suc n) U) S target source) st
           = (Inr u, st')
         \<Longrightarrow> builtin_hasOwnProperty st S \<or> xs = []
         \<Longrightarrow> agree_on (heap st) (heap st') key"
  using assms
proof (induction xs arbitrary: st)
  case Nil
  then show ?case by (simp add: ret_def agree_on_refl)
next
  case (Cons x xs)
  from Cons.prems(1) obtain u1 st1 where
    step: "defineAndImplMethodsAsTraits_step (call (Suc n) U) S target source x st = (Inr u1, st1)"
    and rest: "for_each xs (defineAndImplMethodsAsTraits_step (call (Suc n) U) S target source) st1
                 = (Inr u, st')"
    by (rule for_each_Cons_Inr)
  from Cons.prems(2) have b: "builtin_hasOwnProperty st S" by simp
  from step b obtain q0 where syms: "symbols st1 = symbols st @ [Some x]"
    and ag: "\<forall>k. k \<noteq> KStr x \<longrightarrow> k \<noteq> KSym (length (symbols st))
            \<longrightarrow> agree_on (heap st) (heap st1) k"
    by (rule step_effects)
  from Cons.prems(3) have kx: "key \<noteq> KStr x" and kxs: "\<forall>x\<in>set xs. key \<noteq> KStr x" by simp_all
  from Cons.prems(4) have "key \<noteq> KSym (length (symbols st))" by auto
  with ag kx have ag1: "agree_on (heap st) (heap st1) key" by simp
  have b1: "builtin_hasOwnProperty st1 S \<or> xs = []"
  proof (cases xs)
    case Nil
    then show ?thesis by simp
  next
    case (Cons y ys)
    with rest next_builtin[OF step b] show ?thesis by simp
  qed
  have "\<forall>s. key = KSym s \<longrightarrow> s < length (symbols st1)"
    using Cons.prems(4) syms by auto
  from Cons.IH[OF rest b1 kxs this] have "agree_on (heap st1) (heap st') key" .
  with ag1 show ?case by (rule agree_on_trans)
qed

lemma loop_binds:
  assumes "m \<in> set xs" and "\<not> reaches_accessor st' S (KStr m)"
  shows "for_each xs (defineAndImplMethodsAsTraits_step (call (Suc n) U) S target source) st
           = (Inr u, st')
         \<Longrightarrow> builtin_hasOwnProperty st S
         \<Longrightarrow> \<exists>s p q. own_prop st' S (KStr m) = Some p \<and> p_value p = VSym s
               \<and> p_kind p = DataProperty
               \<and> own_prop st' target (KSym s) = Some q \<and> p_kind q = DataProperty
               \<and> function_code st' (p_value q) = Some (MethodWrapper source m)"
  using assms(1)
proof (induction xs arbitrary: st)
  case Nil
  then show ?case by simp
next
  case (Cons x xs)
  from Cons.prems(1) obtain u1 st1 where
    step: "defineAndImplMethodsAsTraits_step (call (Suc n) U) S target source x st = (Inr u1, st1)"
    and rest: "for_each xs (defineAndImplMethodsAsTraits_step (call (Suc n) U) S target source) st1
                 = (Inr u, st')"
    by (rule for_each_Cons_Inr)
  note b = Cons.prems(2)
  have b1: "builtin_hasOwnProperty st1 S \<or> xs = []"
  proof (cases xs)
    case Nil
    then show ?thesis by simp
  next
    case (Cons y ys)
    with rest next_builtin[OF step b] show ?thesis by simp
  qed
  show ?case
  proof (cases "m \<in> set xs")
    case True
    with b1 have "builtin_hasOwnProperty st1 S" by auto
    from Cons.IH[OF rest this True] show ?thesis .
  next
    case False
    with Cons.prems(3) have mx: "m = x" by simp
    from step b obtain q where syms: "symbols st1 = symbols st @ [Some x]"
      and q: "own_prop st1 target (KSym (length (symbols st))) = Some q"
      and qk: "p_kind q = DataProperty"
      and w: "function_code st1 (p_value q) = Some (MethodWrapper source x)"
      and alt: "if reaches_accessor st S (KStr x)
         then agree_on (heap st) (heap st1) (KStr x)
         else (\<exists>p. own_prop st1 S (KStr x) = Some p \<and> p_value p = VSym (length (symbols st))
                     \<and> p_kind p = DataProperty)"
      by (rule step_effects)
    from False have notin: "\<forall>y\<in>set xs. KStr m \<noteq> KStr y" by auto
    have agm: "agree_on (heap st1) (heap st') (KStr m)"
      by (rule loop_agree[OF notin _ rest b1]) simp
    have ags: "agree_on (heap st1) (heap st') (KSym (length (symbols st)))"
      by (rule loop_agree[OF _ _ rest b1]) (simp_all add: syms)
    have na: "\<not> reaches_accessor st S (KStr x)"
    proof
      assume ra: "reaches_accessor st S (KStr x)"
      with alt have "agree_on (heap st) (heap st1) (KStr m)" by (simp add: mx)
      from agree_on_trans[OF this agm] ra have "reaches_accessor st' S (KStr m)"
        unfolding mx by (rule reaches_accessor_agree)
      with assms(2) show False by simp
    qed
    with alt obtain p where p: "own_prop st1 S (KStr m) = Some p"
      and pv: "p_value p = VSym (length (symbols st))" "p_kind p = DataProperty"
      by (auto simp: mx)
    from own_prop_agree[OF agm p] own_prop_agree[OF ags q]
      function_code_agree[OF agm w] pv qk mx
    show ?thesis by blast
  qed
qed

lemma function_code_heap_append:
  assumes "heap st' = heap st @ hs" and "function_code st v = Some c"
  shows "function_code st' v = Some c"
proof -
  have "agree_on (heap st) (heap st') (KStr [])"
    unfolding assms(1) by (rule agree_on_append)
  then show ?thesis using assms(2) by (rule function_code_agree)
qed

lemma function_code_truthy: "function_code st v = Some c \<Longrightarrow> truthy v"
  by (cases v) (simp_all add: function_code_def truthy_def)

lemma own_prop_not_nullish: "own_prop st v k = Some p \<Longrightarrow> \<not> nullish v"
  by (cases v) (simp_all add: own_prop_def nullish_def)

lemma call_method_wrapper:
  assumes "function_code st w = Some (MethodWrapper source m)"
  shows "call (Suc n) U w this args st = call_method (call n U) source m (this # args) st"
  using assms by (simp add: methodWrapper_def)

text \<open>
  Claim C9 says that after \<^verbatim>\<open>S.adaptMethods(target, source, methodNames)\<close> the trait
  \<open>m\<close> of \<open>S\<close>, dispatched on the target, does what \<^verbatim>\<open>source.m(target, ...args)\<close>
  does, for every name \<open>m\<close> of \<open>methodNames\<close>. It fails for the name \<^verbatim>\<open>__proto__\<close>.
  The source (address 16) has a method of that name, which returns its first argument;
  \<open>S\<close> (address 8) is an empty set and the target is the object at address 9. The
  operation returns \<open>S\<close>, with no error. It creates symbol 2 and attaches the
  forwarding function (address 17) to the target under it: called on the target, that
  function returns what the method of the source returns. But the assignment
  \<^verbatim>\<open>this[name] = sym\<close> of \<^verbatim>\<open>addSymbol\<close> calls the setter that \<open>S\<close> inherits from
  \<^verbatim>\<open>Object.prototype\<close>, which ignores a symbol. So \<open>S\<close> holds no identifier under the
  name: \<^verbatim>\<open>S['__proto__']\<close> is \<^verbatim>\<open>Object.prototype\<close> (address 0), \<open>S\<close> has no own
  property of that name, and there is no trait \<open>m\<close> of \<open>S\<close> to dispatch.
\<close>

theorem adaptMethods_proto_name:
  "result (defineAndImplMethodsAsTraits (call (Suc 1) U0) (VRef 8) (VRef 9) (VRef 16)
             [''__proto__'']) realm_proto = Inr (VRef 8)
   \<and> symbols (after (defineAndImplMethodsAsTraits (call (Suc 1) U0) (VRef 8) (VRef 9) (VRef 16)
                 [''__proto__'']) realm_proto)
       = symbols realm_proto @ [Some ''__proto__'']
   \<and> get_value (after (defineAndImplMethodsAsTraits (call (Suc 1) U0) (VRef 8) (VRef 9) (VRef 16)
                 [''__proto__'']) realm_proto) (VRef 9) (KSym 2) = VRef 17
   \<and> result (call (Suc 1) U0 (VRef 17) (VRef 9) [VNum 7])
        (after (defineAndImplMethodsAsTraits (call (Suc 1) U0) (VRef 8) (VRef 9) (VRef 16)
                 [''__proto__'']) realm_proto) = Inr (VRef 9)
   \<and> result (call_method (call 1 U0) (VRef 16) ''__proto__'' [VRef 9, VNum 7])
        (after (defineAndImplMethodsAsTraits (call (Suc 1) U0) (VRef 8) (VRef 9) (VRef 16)
                 [''__proto__'']) realm_proto) = Inr (VRef 9)
   \<and> get_value (after (defineAndImplMethodsAsTraits (call (Suc 1) U0) (VRef 8) (VRef 9) (VRef 16)
                 [''__proto__'']) realm_proto) (VRef 8) (KStr ''__proto__'')
       = VRef Object_prototype
   \<and> own_prop (after (defineAndImplMethodsAsTraits (call (Suc 1) U0) (VRef 8) (VRef 9) (VRef 16)
                 [''__proto__'']) realm_proto) (VRef 8) (KStr ''__proto__'') = None"
  by code_simp

text \<open>
  For every name of \<open>methodNames\<close> that does not lead to the accessor (what \<open>S\<close> has
  under \<open>m\<close> afterwards is not the accessor property), the methods are forwarded. When
  \<^verbatim>\<open>S.adaptMethods(target, source, methodNames)\<close> has returned, the set holds an
  identifier under \<open>m\<close>, and the callable derived from it, called on \<open>target\<close> with
  \<open>args\<close>, does exactly what the method call \<^verbatim>\<open>source.m(target, ...args)\<close> does (two
  calls deeper). (\<open>S\<close> is a trait set whose \<^verbatim>\<open>hasOwnProperty\<close> is the built-in one.)
\<close>

theorem adaptMethods_forwarding:
  assumes "defineAndImplMethodsAsTraits (call (Suc k) U) S target source methodNames st
             = (Inr r, st')"
    and "builtin_hasOwnProperty st S"
    and "m \<in> set methodNames"
    and "\<not> reaches_accessor st' S (KStr m)"
  shows "\<exists>s. get_value st' S (KStr m) = VSym s
           \<and> (\<forall>f st2 n this args.
                 asFreeFunction s st' = (Inr f, st2) \<longrightarrow>
                 call (Suc (Suc n)) U f this (target # args) st2
                   = call_method (call n U) source m (target # args) st2)"
proof -
  from assms(1) obtain u st1 where
    loop: "for_each methodNames
             (defineAndImplMethodsAsTraits_step (call (Suc k) U) S target source) st = (Inr u, st1)"
    and "ret S st1 = (Inr r, st')"
    unfolding defineAndImplMethodsAsTraits_def by (rule bind_eq_Inr)
  then have st1: "st1 = st'" by (simp add: ret_def)
  from loop_binds[OF assms(3,4) loop[unfolded st1] assms(2)] obtain s p q where
    p: "own_prop st' S (KStr m) = Some p" "p_value p = VSym s" "p_kind p = DataProperty"
    and q: "own_prop st' target (KSym s) = Some q" and qk: "p_kind q = DataProperty"
    and w: "function_code st' (p_value q) = Some (MethodWrapper source m)"
    by blast
  from p have gs: "get_value st' S (KStr m) = VSym s" by (simp add: get_value_own)
  have "call (Suc (Suc n)) U f this (target # args) st2
          = call_method (call n U) source m (target # args) st2"
    if af: "asFreeFunction s st' = (Inr f, st2)" for f st2 n this args
  proof -
    from asFreeFunction_code(2)[OF af] obtain hs where hs: "heap st2 = heap st' @ hs" ..
    from own_prop_heap_append[OF hs q] qk
    have gv: "get_value st2 target (KSym s) = p_value q" by (simp add: get_value_own)
    from function_code_heap_append[OF hs w]
    have w2: "function_code st2 (p_value q) = Some (MethodWrapper source m)" .
    have "call (Suc (Suc n)) U f this (target # args) st2
            = call (Suc n) U (get_value st2 target (KSym s)) target args st2"
      by (rule free_call[OF asFreeFunction_code(1)[OF af] own_prop_not_nullish[OF q]])
         (simp add: gv function_code_truthy[OF w2])
    also have "\<dots> = call_method (call n U) source m (target # args) st2"
      unfolding gv by (rule call_method_wrapper[OF w2])
    finally show ?thesis .
  qed
  with gs show ?thesis by blast
qed

theorem adaptMethods_forwarding_witness:
  "defineAndImplMethodsAsTraits (call (Suc 1) U0) (VRef 8) (VRef 9) (VRef 12) [''serialize''] realm
     = (Inr (VRef 8),
        after (defineAndImplMethodsAsTraits (call (Suc 1) U0) (VRef 8) (VRef 9) (VRef 12)
                 [''serialize'']) realm)
   \<and> builtin_hasOwnProperty realm (VRef 8)
   \<and> ''serialize'' \<in> set [''serialize'']
   \<and> \<not> reaches_accessor
        (after (defineAndImplMethodsAsTraits (call (Suc 1) U0) (VRef 8) (VRef 9) (VRef 12)
                 [''serialize'']) realm) (VRef 8) (KStr ''serialize'')
   \<and> get_value
        (after (defineAndImplMethodsAsTraits (call (Suc 1) U0) (VRef 8) (VRef 9) (VRef 12)
                 [''serialize'']) realm) (VRef 8) (KStr ''serialize'') = VSym 2
   \<and> result (asFreeFunction 2)
        (after (defineAndImplMethodsAsTraits (call (Suc 1) U0) (VRef 8) (VRef 9) (VRef 12)
                 [''serialize'']) realm) = Inr (VRef 16)
   \<and> result (call (Suc (Suc 1)) U0 (VRef 16) VUndefined [VRef 9, VNum 7])
        (after (asFreeFunction 2)
          (after (defineAndImplMethodsAsTraits (call (Suc 1) U0) (VRef 8) (VRef 9) (VRef 12)
                   [''serialize'']) realm)) = Inr (VRef 9)
   \<and> result (call_method (call 1 U0) (VRef 12) ''serialize'' [VRef 9, VNum 7])
        (after (asFreeFunction 2)
          (after (defineAndImplMethodsAsTraits (call (Suc 1) U0) (VRef 8) (VRef 9) (VRef 12)
                   [''serialize'']) realm)) = Inr (VRef 9)"
proof -
  let ?st' = "after (defineAndImplMethodsAsTraits (call (Suc 1) U0) (VRef 8) (VRef 9) (VRef 12)
                 [''serialize'']) realm"
  let ?st2 = "after (asFreeFunction 2) ?st'"
  have h1: "defineAndImplMethodsAsTraits (call (Suc 1) U0) (VRef 8) (VRef 9) (VRef 12)
              [''serialize''] realm = (Inr (VRef 8), ?st')"
    by (rule run_eq) code_simp
  have h2: "builtin_hasOwnProperty realm (VRef 8)" by code_simp
  have h3: "''serialize'' \<in> set [''serialize'']" by simp
  have h3': "\<not> reaches_accessor ?st' (VRef 8) (KStr ''serialize'')" by code_simp
  have g: "get_value ?st' (VRef 8) (KStr ''serialize'') = VSym 2" by code_simp
  have af: "asFreeFunction 2 ?st' = (Inr (VRef 16), ?st2)"
    by (rule run_eq) code_simp
  have h5: "result (call_method (call 1 U0) (VRef 12) ''serialize'' [VRef 9, VNum 7]) ?st2
              = Inr (VRef 9)"
    by code_simp
  from adaptMethods_forwarding[OF h1 h2 h3 h3'] obtain s where
    s: "get_value ?st' (VRef 8) (KStr ''serialize'') = VSym s"
    and all: "\<forall>f st2 n this args.
                 asFreeFunction s ?st' = (Inr f, st2) \<longrightarrow>
                 call (Suc (Suc n)) U0 f this (VRef 9 # args) st2
                   = call_method (call n U0) (VRef 12) ''serialize'' (VRef 9 # args) st2"
    by blast
  from s g have "s = 2" by simp
  with all af have "call (Suc (Suc 1)) U0 (VRef 16) VUndefined [VRef 9, VNum 7] ?st2
      = call_method (call 1 U0) (VRef 12) ''serialize'' [VRef 9, VNum 7] ?st2"
    by blast
  with h5 have h6: "result (call (Suc (Suc 1)) U0 (VRef 16) VUndefined [VRef 9, VNum 7]) ?st2
      = Inr (VRef 9)"
    by (simp only: result_def)
  from af have h4: "result (asFreeFunction 2) ?st' = Inr (VRef 16)"
    by (simp only: result_def fst_conv)
  from h1 h2 h3 h3' g h4 h6 h5 show ?thesis by (simp only: simp_thms)
qed

theorem borrow_preserves_identity_witness:
  "borrowTraits (call (Suc 1) U0) (VRef 8) (VRef 13) (Some [''add'']) realm
     = (Inr (VRef 8),
        after (borrowTraits (call (Suc 1) U0) (VRef 8) (VRef 13) (Some [''add''])) realm)
   \<and> builtin_hasOwnProperty realm (VRef 8)
   \<and> \<not> reaches_accessor realm (VRef 8) (KStr ''add'')
   \<and> get_value realm (VRef 13) (KStr ''add'') = VSym 1
   \<and> get_value (after (borrowTraits (call (Suc 1) U0) (VRef 8) (VRef 13) (Some [''add''])) realm)
        (VRef 13) (KStr ''add'') = VSym 1
   \<and> get_value (after (borrowTraits (call (Suc 1) U0) (VRef 8) (VRef 13) (Some [''add''])) realm)
        (VRef 8) (KStr ''add'') = VSym 1
   \<and> symbols (after (borrowTraits (call (Suc 1) U0) (VRef 8) (VRef 13) (Some [''add''])) realm)
       = symbols realm
   \<and> result (call (Suc 1) U0 (VRef 15) VUndefined [VRef 9, VNum 5])
        (after (asFreeFunction 1)
          (after (impl 1 (VRef 9) (VRef 10))
            (after (borrowTraits (call (Suc 1) U0) (VRef 8) (VRef 13) (Some [''add''])) realm)))
       = Inr (VNum 15)"
proof -
  let ?st' = "after (borrowTraits (call (Suc 1) U0) (VRef 8) (VRef 13) (Some [''add''])) realm"
  let ?sa = "after (impl 1 (VRef 9) (VRef 10)) ?st'"
  let ?sb = "after (asFreeFunction 1) ?sa"
  have h1: "borrowTraits (call (Suc 1) U0) (VRef 8) (VRef 13) (Some [''add'']) realm
              = (Inr (VRef 8), ?st')"
    by (rule run_eq) code_simp
  have h2: "builtin_hasOwnProperty realm (VRef 8)" by code_simp
  have h3: "\<not> reaches_accessor realm (VRef 8) (KStr ''add'')" by code_simp
  have g: "get_value realm (VRef 13) (KStr ''add'') = VSym 1" by code_simp
  have i: "impl 1 (VRef 9) (VRef 10) ?st' = (Inr (VSym 1), ?sa)"
    by (rule run_eq) code_simp
  have af: "asFreeFunction 1 ?sa = (Inr (VRef 15), ?sb)"
    by (rule run_eq) code_simp
  have t: "truthy (VRef 10)" by (simp add: truthy_def)
  have h5: "result (call 1 U0 (VRef 10) (VRef 9) [VNum 5]) ?sb = Inr (VNum 15)"
    by code_simp
  from borrow_preserves_identity[OF h1 h2 h3] obtain s where
    s: "get_value realm (VRef 13) (KStr ''add'') = VSym s"
    and a: "get_value ?st' (VRef 13) (KStr ''add'') = VSym s"
    and b: "get_value ?st' (VRef 8) (KStr ''add'') = VSym s"
    and sy: "symbols ?st' = symbols realm"
    and all: "\<forall>target fn r1 st1 f st2 m this args.
                 impl s target fn ?st' = (Inr r1, st1) \<longrightarrow>
                 asFreeFunction s st1 = (Inr f, st2) \<longrightarrow>
                 truthy fn \<longrightarrow>
                 call (Suc m) U0 f this (target # args) st2 = call m U0 fn target args st2"
    by blast
  from s g have s1: "s = 1" by simp
  from all[unfolded s1] i af t
  have "call (Suc 1) U0 (VRef 15) VUndefined [VRef 9, VNum 5] ?sb
          = call 1 U0 (VRef 10) (VRef 9) [VNum 5] ?sb"
    by blast
  with h5 have h6: "result (call (Suc 1) U0 (VRef 15) VUndefined [VRef 9, VNum 5]) ?sb
                      = Inr (VNum 15)"
    by (simp only: result_def)
  from h1 h2 h3 g a[unfolded s1] b[unfolded s1] sy h6 show ?thesis by (simp only: simp_thms)
qed

section \<open>Further properties\<close>

text \<open>
  The duplicate guard: when \<^verbatim>\<open>S.defineTrait(t)\<close> has returned, the property
  \<^verbatim>\<open>hasOwnProperty\<close> of \<open>S\<close> is the built-in function before and after it, and the
  assignment of the name stores a property (the property that \<open>S\<close> has under \<open>t\<close>, if
  any, is not the accessor), a second \<^verbatim>\<open>S.defineTrait(t)\<close> throws the assertion error
  \<^verbatim>\<open>Trying to re-define trait `t`\<close>, and so does borrowing the name \<open>t\<close> from another
  set. (For the name \<^verbatim>\<open>__proto__\<close> nothing is stored, and the second call returns
  like the first.)
\<close>

theorem duplicate_guard:
  assumes "defineTrait (call (Suc n) U) S t st = (Inr r, st1)"
    and "builtin_hasOwnProperty st S"
    and "builtin_hasOwnProperty st1 S"
    and "\<not> nullish A"
    and "\<not> reaches_accessor st S (KStr t)"
  shows "result (defineTrait (call (Suc n) U) S t) st1
           = Inl (AssertionError (''Trying to re-define trait `'' @ t @ ''`''))
       \<and> result (borrowTraits (call (Suc n) U) S A (Some [t])) st1
           = Inl (AssertionError (''Trying to re-define trait `'' @ t @ ''`''))"
proof -
  note b = assms(2,3)[unfolded builtin_hasOwnProperty_def]
  from assms(1) have
    "addSymbol (call (Suc n) U) S t (VSym (length (symbols st)))
       (st\<lparr>symbols := symbols st @ [Some t]\<rparr>) = (Inr r, st1)"
    by (simp only: defineTrait_new_symbol)
  then obtain p where own: "own_prop st1 S (KStr t) = Some p"
    by (rule addSymbol_own_after) (simp_all add: b(1) assms(5))
  then have S: "\<not> nullish S" by (rule own_prop_not_nullish)
  have 1: "result (defineTrait (call (Suc n) U) S t) st1
           = Inl (AssertionError (''Trying to re-define trait `'' @ t @ ''`''))"
    using defineTrait_twice[OF assms(1) b assms(5)] by (simp add: result_def del: call.simps)
  have "addSymbol (call (Suc n) U) S t (get_value st1 A (KStr t)) st1
          = (Inl (AssertionError (''Trying to re-define trait `'' @ t @ ''`'')), st1)"
    unfolding addSymbol_builtin[OF b(2)] using own S by simp
  then have 2: "result (borrowTraits (call (Suc n) U) S A (Some [t])) st1
           = Inl (AssertionError (''Trying to re-define trait `'' @ t @ ''`''))"
    using assms(4) by (simp add: result_def borrowTraits_def bind_def get_def del: call.simps)
  from 1 2 show ?thesis by (intro conjI)
qed

theorem duplicate_guard_witness:
  "defineTrait (call (Suc 1) U0) (VRef 8) ''greet'' realm
     = (Inr (VSym 2), after (defineTrait (call (Suc 1) U0) (VRef 8) ''greet'') realm)
   \<and> builtin_hasOwnProperty realm (VRef 8)
   \<and> builtin_hasOwnProperty (after (defineTrait (call (Suc 1) U0) (VRef 8) ''greet'') realm) (VRef 8)
   \<and> \<not> nullish (VRef 13)
   \<and> \<not> reaches_accessor realm (VRef 8) (KStr ''greet'')
   \<and> result (defineTrait (call (Suc 1) U0) (VRef 8) ''greet'')
        (after (defineTrait (call (Suc 1) U0) (VRef 8) ''greet'') realm)
       = Inl (AssertionError ''Trying to re-define trait `greet`'')
   \<and> result (borrowTraits (call (Suc 1) U0) (VRef 8) (VRef 13) (Some [''greet'']))
        (after (defineTrait (call (Suc 1) U0) (VRef 8) ''greet'') realm)
       = Inl (AssertionError ''Trying to re-define trait `greet`'')"
proof -
  have h1: "defineTrait (call (Suc 1) U0) (VRef 8) ''greet'' realm
     = (Inr (VSym 2), after (defineTrait (call (Suc 1) U0) (VRef 8) ''greet'') realm)"
    by (rule run_eq) code_simp
  have h2: "builtin_hasOwnProperty realm (VRef 8)" by code_simp
  have h3: "builtin_hasOwnProperty
              (after (defineTrait (call (Suc 1) U0) (VRef 8) ''greet'') realm) (VRef 8)"
    by code_simp
  have h4: "\<not> nullish (VRef 13)" by (simp add: nullish_def)
  have h5: "\<not> reaches_accessor realm (VRef 8) (KStr ''greet'')" by code_simp
  from duplicate_guard[OF h1 h2 h3 h4 h5] h1 h2 h3 h4 h5 show ?thesis
    by (simp only: simp_thms append_Nil append_Cons)
qed

text \<open>
  The error of a dispatch that finds neither a binding nor a default, for a target
  that converts to a string: its message is \<^verbatim>\<open>.*\<close>, the description of the symbol
  at the time the callable was derived, \<^verbatim>\<open>called on\<close>, and the string of the target
  (followed by \<^verbatim>\<open>that doesn't implement it.\<close> unless the target is \<^verbatim>\<open>null\<close> or
  \<^verbatim>\<open>undefined\<close>).
\<close>

theorem no_implementation_message:
  assumes "asFreeFunction s st0 = (Inr f, st)"
    and "\<not> has_binding st target s"
    and "defaultImpls st s = None"
    and "result (to_string (call n U) target) st = Inr t"
  shows "call (Suc n) U f this (target # args) st
           = (Inl (Error (''.*'' @ (case symbol_description st0 s of None \<Rightarrow> [] | Some d \<Rightarrow> d)
                @ '' called on '' @ t
                @ (if nullish target then [] else '' that doesn't implement it.''))),
              after (to_string (call n U) target) st)"
proof -
  from unbound_get_value[OF assms(2)]
  have u: "nullish target \<or> \<not> truthy (get_value st target (KSym s))"
    by (auto simp: truthy_def)
  from assms(4) have "to_string (call n U) target st
      = (Inr t, after (to_string (call n U) target) st)"
    by (rule run_eq)
  from free_call_no_implementation[OF asFreeFunction_code(1)[OF assms(1)] u assms(3) this]
  show ?thesis by (simp only: slice_symbol_name)
qed

theorem no_implementation_message_witness:
  "asFreeFunction 1 realm = (Inr (VRef 15), after (asFreeFunction 1) realm)
   \<and> \<not> has_binding (after (asFreeFunction 1) realm) (VRef 9) 1
   \<and> defaultImpls (after (asFreeFunction 1) realm) 1 = None
   \<and> result (to_string (call 1 U0) (VRef 9)) (after (asFreeFunction 1) realm)
       = Inr ''[object Object]''
   \<and> result (call (Suc 1) U0 (VRef 15) VUndefined [VRef 9]) (after (asFreeFunction 1) realm)
       = Inl (Error ''.*add called on [object Object] that doesn't implement it.'')"
proof -
  have h1: "asFreeFunction 1 realm = (Inr (VRef 15), after (asFreeFunction 1) realm)"
    by (rule run_eq) code_simp
  have h2: "\<not> has_binding (after (asFreeFunction 1) realm) (VRef 9) 1" by code_simp
  have h3: "defaultImpls (after (asFreeFunction 1) realm) 1 = None" by code_simp
  have h4: "result (to_string (call 1 U0) (VRef 9)) (after (asFreeFunction 1) realm)
          = Inr ''[object Object]''" by code_simp
  have d: "symbol_description realm 1 = Some ''add''" by code_simp
  have n: "nullish (VRef 9) = False" by (simp add: nullish_def)
  have "result (call (Suc 1) U0 (VRef 15) VUndefined [VRef 9]) (after (asFreeFunction 1) realm)
       = Inl (Error ''.*add called on [object Object] that doesn't implement it.'')"
    unfolding result_def no_implementation_message[OF h1 h2 h3 h4, of VUndefined "[]"]
    by (simp only: d n option.case if_False fst_conv append_Nil append_Cons)
  with h1 h2 h3 h4 show ?thesis by (simp only: simp_thms)
qed

text \<open>
  A binding that is falsy counts as no binding: the dispatch calls the default when
  one is registered, with the target as first argument, and never the binding.
\<close>

theorem falsy_binding_uses_default:
  assumes "asFreeFunction s st0 = (Inr f, st)"
    and "\<not> nullish target"
    and "\<not> truthy (get_value st target (KSym s))"
    and "defaultImpls st s = Some d"
  shows "call (Suc n) U f this (target # args) st = call n U d VUndefined (target # args) st"
  by (rule free_call_default[OF asFreeFunction_code(1)[OF assms(1)] _ assms(4)])
     (simp add: assms(3))

theorem falsy_binding_uses_default_witness:
  "asFreeFunction 1 (after (implDefault 1 (VRef 11)) (after (impl 1 (VRef 9) (VNum 0)) realm))
     = (Inr (VRef 15),
        after (asFreeFunction 1)
          (after (implDefault 1 (VRef 11)) (after (impl 1 (VRef 9) (VNum 0)) realm)))
   \<and> \<not> nullish (VRef 9)
   \<and> \<not> truthy (get_value
          (after (asFreeFunction 1)
            (after (implDefault 1 (VRef 11)) (after (impl 1 (VRef 9) (VNum 0)) realm)))
          (VRef 9) (KSym 1))
   \<and> defaultImpls
        (after (asFreeFunction 1)
          (after (implDefault 1 (VRef 11)) (after (impl 1 (VRef 9) (VNum 0)) realm))) 1
       = Some (VRef 11)
   \<and> result (call (Suc 1) U0 (VRef 15) VUndefined [VRef 9, VNum 5])
        (after (asFreeFunction 1)
          (after (implDefault 1 (VRef 11)) (after (impl 1 (VRef 9) (VNum 0)) realm)))
       = Inr (VRef 9)"
proof -
  let ?base = "after (implDefault 1 (VRef 11)) (after (impl 1 (VRef 9) (VNum 0)) realm)"
  let ?st = "after (asFreeFunction 1) ?base"
  have h1: "asFreeFunction 1 ?base = (Inr (VRef 15), ?st)"
    by (rule run_eq) code_simp
  have h2: "\<not> nullish (VRef 9)" by (simp add: nullish_def)
  have h3: "\<not> truthy (get_value ?st (VRef 9) (KSym 1))" by code_simp
  have h4: "defaultImpls ?st 1 = Some (VRef 11)" by code_simp
  have h5: "result (call 1 U0 (VRef 11) VUndefined [VRef 9, VNum 5]) ?st = Inr (VRef 9)"
    by code_simp
  have "result (call (Suc 1) U0 (VRef 15) VUndefined [VRef 9, VNum 5]) ?st = Inr (VRef 9)"
    unfolding result_def falsy_binding_uses_default[OF h1 h2 h3 h4]
    using h5 by (simp only: result_def)
  with h1 h2 h3 h4 show ?thesis by (simp only: simp_thms)
qed

text \<open>
  The binding is found afresh at every call: a callable derived before the
  implementation was attached dispatches to it as well.
\<close>

lemma free_call_derived_earlier:
  assumes "asFreeFunction s st0 = (Inr f, st1)"
    and "impl s target fn st1 = (Inr r, st2)"
    and "truthy fn"
  shows "call (Suc n) U f this (target # args) st2 = call n U fn target args st2"
proof -
  have "agree_on (heap st1) (heap st2) (KStr [])"
    by (rule impl_agree(1)[OF assms(2)]) simp
  from function_code_agree[OF this asFreeFunction_code(1)[OF assms(1)]]
  have code: "function_code st2 f
      = Some (FreeFunction s (slice (symbol_descriptive_string st0 s) 7 (- 1)))" .
  from assms(2) obtain p where p: "own_prop st2 target (KSym s) = Some p" "p_value p = fn"
    "p_kind p = DataProperty"
    by (rule impl_own_prop)
  then have gv: "get_value st2 target (KSym s) = fn" by (simp add: get_value_own)
  from free_call[OF code own_prop_not_nullish[OF p(1)], of n U this args] assms(3) gv
  show ?thesis by simp
qed

end
